theory Spec2Isabelle
  imports Main
begin

section \<open>Errors\<close>

text \<open>
  The C++ exceptions that the embedded functions can raise.  A \<open>std::runtime_error\<close>
  carries its message.  \<open>bad_any_cast\<close> is what \<open>variable_value::as\<close> raises when
  the stored value has another type than the one asked for.  \<open>cv_Exception\<close>,
  \<open>parse_exception\<close> and \<open>other_exception\<close> are the remaining kinds that the
  \<open>catch\<close> clauses of the two \<open>main\<close> functions tell apart.  Reading a
  \<open>std::vector\<close> past its end has no defined behaviour; the model makes it the
  result \<open>vector_out_of_range\<close>.
\<close>

datatype error =
    runtime_error string
  | bad_any_cast
  | cv_Exception string
  | parse_exception string
  | other_exception
  | vector_out_of_range


section \<open>lib/utility/ProgramOptions.cpp: extractConfigFileKey\<close>

text \<open>
  A \<open>po::variables_map\<close> maps option names to \<open>variable_value\<close>s.  Its
  \<open>operator[]\<close> is \<open>const\<close> and yields an empty \<open>variable_value\<close> for a name
  that was not given; here that is \<open>None\<close>.  A stored value is either a vector of
  strings (the type \<open>extractConfigFileKey\<close> asks for) or a value of some other type.
\<close>

datatype variable_value = StringVector "string list" | OtherValue

type_synonym variables_map = "string \<rightharpoonup> variable_value"

text \<open>\<open>v.as<std::vector<std::string>>()\<close>\<close>

definition as_string_vector :: "variable_value \<Rightarrow> error + string list" where
  "as_string_vector v = (case v of StringVector xs \<Rightarrow> Inr xs | OtherValue \<Rightarrow> Inl bad_any_cast)"

text \<open>
  The function takes its map by value and \<open>const\<close> (\<open>vmap\<close> below; the source
  calls it \<open>map\<close>).  The model threads the map through the body and returns it beside the result, so that the absence of writes is a
  statement about the function and not a property of the notation.
\<close>

definition extractConfigFileKey :: "variables_map \<Rightarrow> variables_map \<times> (error + string list)" where
  "extractConfigFileKey vmap =
     (let ret = [] in
      case vmap ''config'' of
        None \<Rightarrow> (vmap, Inr ret)
      | Some v \<Rightarrow>
          (case as_string_vector v of
             Inl e \<Rightarrow> (vmap, Inl e)
           | Inr ret \<Rightarrow>
               if length ret \<noteq> 2
               then (vmap, Inl (runtime_error ''Configuration must be supplied as file key pair.\<newline>''))
               else (vmap, Inr ret)))"


section \<open>lib/datatypes/Position2D.h: convertToWorldCoordinates\<close>

text \<open>
  \<open>Position2D\<close> derives from \<open>Position\<close>, of which only the label set by the
  constructors is visible.  The numbers are \<open>double\<close>s and \<open>float\<close>s; nothing below
  computes with them, so a point is a value of an arbitrary type \<open>'p\<close> and the
  \<open>cv::Matx33f\<close> homography a value of an arbitrary type \<open>'m\<close>.  The field
  \<open>coord_system\<close> is an \<open>int\<close>.
\<close>

record ('p, 'm) Position2D =
  label :: string
  coord_system :: int
  homography_valid :: bool
  homography :: 'm
  position_valid :: bool
  position :: 'p
  velocity_valid :: bool
  velocity :: 'p
  head_direction_valid :: bool
  head_direction :: 'p

text \<open>
  What the method uses and does not define: the enumerators \<open>PIXELS\<close> and \<open>WORLD\<close>
  of \<open>Position.h\<close>; \<open>cv::perspectiveTransform\<close> on a vector of one point with a
  \<open>Matx33f\<close> (\<open>transform_f\<close>) and with a \<open>Matx33d\<close> (\<open>transform_d\<close>), each giving
  the one transformed point that the code reads at index 0; and the matrix
  \<open>vel_homo\<close> that the code builds from the homography by converting it to
  \<open>Matx33d\<close> and zeroing the entries (0,2) and (1,2).
\<close>

record ('p, 'm, 'd) world_api =
  PIXELS :: int
  WORLD :: int
  transform_f :: "'p \<Rightarrow> 'm \<Rightarrow> 'p"
  transform_d :: "'p \<Rightarrow> 'd \<Rightarrow> 'p"
  vel_homo :: "'m \<Rightarrow> 'd"

text \<open>
  The method is not \<open>const\<close>.  The model returns the object after the call first and
  the returned \<open>Position2D\<close> second.
\<close>

definition convertToWorldCoordinates ::
  "('p, 'm, 'd) world_api \<Rightarrow> ('p, 'm) Position2D \<Rightarrow> ('p, 'm) Position2D \<times> ('p, 'm) Position2D" where
  "convertToWorldCoordinates api this =
     (if coord_system this = PIXELS api \<and> homography_valid this then
        let world_position = this;
            world_position = world_position\<lparr>position := transform_f api (position this) (homography this)\<rparr>;
            world_position = world_position\<lparr>velocity := transform_d api (velocity this) (vel_homo api (homography this))\<rparr>;
            world_position = world_position\<lparr>coord_system := WORLD api\<rparr>
        in (this, world_position)
      else (this, this))"


section \<open>src/positiondetector/DifferenceDetector.cpp: applyConfiguration\<close>

text \<open>
  The members that \<open>applyConfiguration\<close> and \<open>set_blur_size\<close> write.  The two areas
  have the element type \<open>'a\<close> of the vector that \<open>getArray\<close> fills (\<open>double\<close> in
  the source); of that type the code uses only the comparison \<open>>=\<close>, so \<open>'a\<close> is any
  type with an order relation, about which nothing is assumed.  \<open>blur_size\<close> is a
  \<open>cv::Size\<close>, a width and a height.  The members' names end in an underscore in the
  source (\<open>min_object_area_\<close>); a record field cannot, so it is left out.
\<close>

record 'a DifferenceDetector =
  difference_intensity_threshold :: int
  blur_on :: bool
  blur_size :: "int \<times> int"
  min_object_area :: 'a
  max_object_area :: 'a
  dummy0 :: int
  dummy1 :: int
  tuning_on :: bool

text \<open>\<open>DifferenceDetector::set_blur_size\<close> (lines 212 to 220).\<close>

definition set_blur_size :: "int \<Rightarrow> 'a DifferenceDetector \<Rightarrow> 'a DifferenceDetector" where
  "set_blur_size v this =
     (if v > 0 then this\<lparr>blur_on := True, blur_size := (v, v)\<rparr>
      else this\<lparr>blur_on := False\<rparr>)"

text \<open>
  The helpers of \<open>oat::config\<close> are declared in headers that are not among the
  sources, so they are parameters.  A helper gets the configuration \<open>'c\<close> (the
  variables map and the option table), the key and the present value of its output
  argument (and the lower bound, for \<open>getNumericValue\<close>); it throws (\<open>Inl\<close>) or
  returns whether the key was found together with the output argument after the call.
  \<open>to_int\<close> is the conversion of an area to the \<open>int\<close> of the two slider dummies.
\<close>

record ('c, 'a) config_api =
  getNumericValue :: "'c \<Rightarrow> string \<Rightarrow> int \<Rightarrow> int \<Rightarrow> error + (bool \<times> int)"
  getArray :: "'c \<Rightarrow> string \<Rightarrow> 'a list \<Rightarrow> error + (bool \<times> 'a list)"
  getValue :: "'c \<Rightarrow> string \<Rightarrow> bool \<Rightarrow> error + (bool \<times> bool)"
  to_int :: "'a \<Rightarrow> int"

text \<open>
  The block guarded by \<open>getArray\<close> (lines 83 to 91).  The members are written before
  the comparison, so they keep the new values when the exception leaves the function: the
  result is the exception, if any, and the object as it is then.
\<close>

definition apply_area ::
  "('c, 'a::ord) config_api \<Rightarrow> 'a list \<Rightarrow> 'a DifferenceDetector
     \<Rightarrow> error option \<times> 'a DifferenceDetector" where
  "apply_area api area this =
     (case area of
        a0 # a1 # _ \<Rightarrow>
          let this = this\<lparr>min_object_area := a0\<rparr>;
              this = this\<lparr>max_object_area := a1\<rparr>;
              this = this\<lparr>dummy0 := to_int api (min_object_area this)\<rparr>;
              this = this\<lparr>dummy1 := to_int api (max_object_area this)\<rparr>
          in if min_object_area this \<ge> max_object_area this
             then (Some (runtime_error ''Max area should be larger than min area.''), this)
             else (None, this)
      | _ \<Rightarrow> (Some vector_out_of_range, this))"

text \<open>
  \<open>DifferenceDetector::applyConfiguration\<close> (lines 66 to 96).  \<open>blur\<close> is the value
  of the uninitialised local of that name when it is handed to \<open>getNumericValue\<close>.
\<close>

definition applyConfiguration ::
  "('c, 'a::ord) config_api \<Rightarrow> 'c \<Rightarrow> int \<Rightarrow> 'a DifferenceDetector
     \<Rightarrow> error option \<times> 'a DifferenceDetector" where
  "applyConfiguration api cfg blur this =
     (case getNumericValue api cfg ''diff-threshold'' (difference_intensity_threshold this) 0 of
        Inl e \<Rightarrow> (Some e, this)
      | Inr (_, v) \<Rightarrow>
          (let this = this\<lparr>difference_intensity_threshold := v\<rparr> in
           (case getNumericValue api cfg ''blur'' blur 0 of
              Inl e \<Rightarrow> (Some e, this)
            | Inr (found, blur) \<Rightarrow>
                (let this = (if found then set_blur_size blur this else this) in
                 (case getArray api cfg ''area'' [] of
                    Inl e \<Rightarrow> (Some e, this)
                  | Inr (found, area) \<Rightarrow>
                      (case (if found then apply_area api area this else (None, this)) of
                         (Some e, this) \<Rightarrow> (Some e, this)
                       | (None, this) \<Rightarrow>
                           (case getValue api cfg ''tune'' (tuning_on this) of
                              Inl e \<Rightarrow> (Some e, this)
                            | Inr (_, t) \<Rightarrow> (None, this\<lparr>tuning_on := t\<rparr>))))))))"


section \<open>What a component does to the outside: output and events\<close>

text \<open>
  Text sent to \<open>std::cout\<close> or \<open>std::cerr\<close>.  \<open>oat::whoMessage\<close> and
  \<open>oat::whoError\<close> are formatting helpers of \<open>IOFormat.h\<close>, which is not among the
  sources: their results are kept as the call with its two arguments.  \<open>what e\<close> is
  \<open>ex.what()\<close> of a caught exception.
\<close>

datatype message = whoMessage string string | whoError string string | plain string | what error

datatype out = cout message | cerr message

text \<open>How a \<open>main\<close> ends: it returns a status, or an exception nobody catches ends the
  process through \<open>std::terminate\<close>.\<close>

datatype status = returned int | terminated

text \<open>
  \<open>oat::NodeState\<close> is declared in \<open>Node.h\<close>, not among the sources.  The code
  compares the result of \<open>Source::wait\<close> with \<open>NodeState::END\<close> and nothing else, so
  \<open>OK\<close> stands for every other value.  \<open>cv_status\<close> is \<open>std::cv_status\<close>.
\<close>

datatype NodeState = END | OK

datatype cv_status = no_timeout | timeout

text \<open>
  The calls a component makes on its endpoints and on its own synchronisation objects, in
  the order in which it makes them.  \<open>'s\<close> names the source (a component may have
  several), \<open>'a\<close> is the payload.
  \<^item> \<open>SrcWait i n\<close>: \<open>wait()\<close> on source \<open>i\<close> returned \<open>n\<close>;
  \<^item> \<open>SrcRead i\<close>: the shared payload of source \<open>i\<close> is read (\<open>retrieve\<close>,
    \<open>clone\<close>, \<open>copyTo\<close>, \<open>cloneFrame\<close>);
  \<^item> \<open>SrcPost i\<close>: \<open>post()\<close> on source \<open>i\<close>;
  \<^item> \<open>SinkWait\<close>, \<open>SinkWrite x\<close>, \<open>SinkPost\<close>: \<open>wait()\<close> on the sink, \<open>x\<close>
    copied into the sink's shared frame, \<open>post()\<close> on the sink;
  \<^item> \<open>RingPush x ok\<close>: \<open>buffer_.push(x)\<close> returned \<open>ok\<close>;
  \<^item> \<open>CvNotify\<close>: \<open>cv_.notify_one()\<close>;
  \<^item> \<open>CvWaitFor d r\<close>: \<open>cv_.wait_for(lk, msec(d))\<close> returned \<open>r\<close>;
  \<^item> \<open>Print o\<close>: output.
\<close>

datatype ('s, 'a) event =
    SrcWait 's NodeState
  | SrcRead 's
  | SrcPost 's
  | SinkWait
  | SinkWrite 'a
  | SinkPost
  | RingPush 'a bool
  | CvNotify
  | CvWaitFor nat cv_status
  | Print out


section \<open>src/recorder/main.cpp and src/positionsocket/main.cpp: the driver loop\<close>

text \<open>
  The two globals \<open>volatile sig_atomic_t quit\<close> and \<open>source_eof\<close>, both initialised
  to 0.  \<open>!quit\<close> is \<open>quit = 0\<close>.
\<close>

record flags =
  quit :: int
  source_eof :: int

text \<open>The handler that both \<open>main\<close>s install for \<open>SIGINT\<close>; it ignores its argument.\<close>

definition sigHandler :: "int \<Rightarrow> flags \<Rightarrow> flags" where
  "sigHandler s g = g\<lparr>quit := 1\<rparr>"

definition SIGINT :: int where
  "SIGINT = 2"

text \<open>
  One call of \<open>recorder->writeStreams()\<close> or \<open>sock->process()\<close> as the loop sees it:
  whether \<open>SIGINT\<close> is delivered between the loop test that admitted the call and the
  next loop test, and whether the call throws or returns, and what.  The functions
  themselves are not among the sources.
\<close>

record call =
  sigint :: bool
  returns :: "error + bool"

text \<open>
  \<open>run\<close> is the same loop in both files:
  \<^verbatim>\<open>while (!quit && !source_eof) { source_eof = recorder->writeStreams(); }\<close>
  The list is what the calls will do, in order.  The result is \<open>None\<close> when the list
  is used up and the loop would go on; otherwise it is the exception that left the loop
  or the flags at its end, and the number of calls made.
\<close>

fun run :: "call list \<Rightarrow> flags \<Rightarrow> ((error + flags) \<times> nat) option" where
  "run [] g = (if quit g = 0 \<and> source_eof g = 0 then None else Some (Inr g, 0))"
| "run (c # cs) g =
     (if quit g = 0 \<and> source_eof g = 0 then
        (let g = (if sigint c then sigHandler SIGINT g else g) in
         (case returns c of
            Inl e \<Rightarrow> Some (Inl e, 1)
          | Inr b \<Rightarrow>
              map_option (\<lambda>(r, n). (r, Suc n)) (run cs (g\<lparr>source_eof := (if b then 1 else 0)\<rparr>))))
      else Some (Inr g, 0))"

text \<open>
  The last \<open>try\<close> block of the recorder's \<open>main\<close> (lines 217 to 239), from the call
  of \<open>run\<close> on: what it prints and the status it returns.  \<open>cpptoml::parse_exception\<close>
  derives from \<open>std::runtime_error\<close> and is caught as one here.
\<close>

definition recorder_main :: "string \<Rightarrow> call list \<Rightarrow> flags \<Rightarrow> (out list \<times> int) option" where
  "recorder_main name cs g =
     (case run cs g of
        None \<Rightarrow> None
      | Some (Inr g', n) \<Rightarrow> Some ([cout (whoMessage name ''Exiting.\<newline>'')], 0)
      | Some (Inl e, n) \<Rightarrow>
          Some (case e of
                  runtime_error msg \<Rightarrow> [cerr (whoError name msg), cerr (plain ''\<newline>'')]
                | parse_exception msg \<Rightarrow> [cerr (whoError name msg), cerr (plain ''\<newline>'')]
                | cv_Exception msg \<Rightarrow> [cerr (whoError name msg), cerr (plain ''\<newline>'')]
                | _ \<Rightarrow> [cerr (whoError name ''Unknown exception.\<newline>'')],
                - 1))"

text \<open>The same part of the position socket's \<open>main\<close> (lines 210 to 235).\<close>

definition posisock_main :: "string \<Rightarrow> string \<Rightarrow> call list \<Rightarrow> flags \<Rightarrow> (out list \<times> int) option" where
  "posisock_main name config_file cs g =
     (case run cs g of
        None \<Rightarrow> None
      | Some (Inr g', n) \<Rightarrow> Some ([cout (whoMessage name ''Exiting.\<newline>'')], 0)
      | Some (Inl e, n) \<Rightarrow>
          Some (case e of
                  parse_exception msg \<Rightarrow>
                    [cerr (whoError name (''Failed to parse configuration file '' @ config_file @ ''\<newline>'')),
                     cerr (whoError name msg), cerr (plain ''\<newline>'')]
                | runtime_error msg \<Rightarrow> [cerr (whoError name msg), cerr (plain ''\<newline>'')]
                | cv_Exception msg \<Rightarrow> [cerr (whoError name msg), cerr (plain ''\<newline>'')]
                | _ \<Rightarrow> [cerr (whoError name ''Unknown exception.\<newline>'')],
                - 1))"


section \<open>src/buffer/FrameBuffer.cpp\<close>

subsection \<open>The ring\<close>

text \<open>
  \<open>buffer_\<close> is declared in \<open>FrameBuffer.h\<close>, which is not among the sources; the
  calls made on it (\<open>push\<close> with a \<open>bool\<close> result, \<open>read_available\<close>,
  \<open>consume_one\<close> with a functor) are those of \<open>boost::lockfree::spsc_queue\<close>.  The
  ring is the list of its elements, oldest first, and its capacity is the parameter
  \<open>BUFFSIZE\<close>.  \<open>spsc_queue::push\<close> puts the element behind the others and returns
  \<open>true\<close>, or, when the ring is full, leaves the ring as it is and returns \<open>false\<close>.
  \<open>consume_one\<close> hands the oldest element to the functor and removes it.
\<close>

definition spsc_push :: "nat \<Rightarrow> 'a \<Rightarrow> 'a list \<Rightarrow> bool \<times> 'a list" where
  "spsc_push cap x q = (if length q < cap then (True, q @ [x]) else (False, q))"

definition read_available :: "'a list \<Rightarrow> nat" where
  "read_available q = length q"

subsection \<open>The object and the two threads\<close>

text \<open>
  Where the thread that runs \<open>FrameBuffer::pop\<close> is:
  \<^item> \<open>Head\<close>: before the test of \<open>while (sink_running_)\<close> (line 83);
  \<^item> \<open>Waiting\<close>: blocked in \<open>cv_.wait_for(lk, msec(10))\<close> (line 87);
  \<^item> \<open>Notified\<close>: still in \<open>wait_for\<close>, after a \<open>notify_one\<close> has reached it;
  \<^item> \<open>Draining\<close>: before the test of \<open>while (buffer_.read_available() > 0)\<close>
    (line 92);
  \<^item> \<open>Exited\<close>: \<open>pop\<close> has returned.
\<close>

datatype pop_pc = Head | Waiting | Notified | Draining | Exited

text \<open>
  The members that \<open>push\<close> and \<open>pop\<close> use (without the underscore that ends their
  names in the source), the place of the \<open>pop\<close> thread, and the calls made so far.
  \<open>shared_frame\<close> is \<open>None\<close> until the first frame is copied into it.
\<close>

record 'a FrameBuffer =
  buffer :: "'a list"
  shared_frame :: "'a option"
  sink_running :: bool
  pop_at :: pop_pc
  trace :: "(unit, 'a) event list"

definition emit :: "(unit, 'a) event list \<Rightarrow> 'a FrameBuffer \<Rightarrow> 'a FrameBuffer" where
  "emit es s = s\<lparr>trace := trace s @ es\<rparr>"

text \<open>
  \<open>cv_.notify_one()\<close> wakes the \<open>pop\<close> thread if it is blocked in \<open>wait_for\<close> and
  does nothing otherwise: \<open>push\<close> does not hold the mutex \<open>cv_m_\<close> and a
  notification is not stored.
\<close>

definition notify_one :: "'a FrameBuffer \<Rightarrow> 'a FrameBuffer" where
  "notify_one s = emit [CvNotify] (s\<lparr>pop_at := (if pop_at s = Waiting then Notified else pop_at s)\<rparr>)"

text \<open>
  \<open>FrameBuffer::push\<close> (lines 52 to 79).  \<open>w\<close> is what the source gives: \<open>None\<close>
  when \<open>source_.wait()\<close> returns \<open>END\<close>, \<open>Some x\<close> when it returns another state
  and \<open>source_.clone()\<close> is \<open>x\<close>.  The result is the \<open>bool\<close> that \<open>push\<close>
  returns and the object after the call.  \<open>showBufferState\<close> is compiled only
  without \<open>NDEBUG\<close> and is left out.
\<close>

definition push :: "nat \<Rightarrow> 'a option \<Rightarrow> 'a FrameBuffer \<Rightarrow> bool \<times> 'a FrameBuffer" where
  "push BUFFSIZE w s =
     (case w of
        None \<Rightarrow> (True, emit [SrcWait () END] s)
      | Some x \<Rightarrow>
          (let s = emit [SrcWait () OK] s;
               s = emit [SrcRead ()] s;
               (ok, q) = spsc_push BUFFSIZE x (buffer s);
               s = emit [RingPush x ok] (s\<lparr>buffer := q\<rparr>);
               s = (if \<not> ok then emit [Print (cerr (plain ''Buffer overrun.\<newline>''))] s else s);
               s = emit [SrcPost ()] s;
               s = notify_one s
           in (False, s)))"

text \<open>
  The body of the inner loop of \<open>pop\<close> (lines 98 to 106): \<open>sink_.wait()\<close>,
  \<open>buffer_.consume_one\<close> with the functor that copies the frame into
  \<open>shared_frame_\<close>, \<open>sink_.post()\<close>.
\<close>

definition publish :: "'a FrameBuffer \<Rightarrow> 'a FrameBuffer" where
  "publish s =
     (let s = emit [SinkWait] s;
          s = (case buffer s of
                 [] \<Rightarrow> s
               | x # q \<Rightarrow> emit [SinkWrite x] (s\<lparr>buffer := q, shared_frame := Some x\<rparr>));
          s = emit [SinkPost] s
      in s)"

text \<open>
  \<open>FrameBuffer::pop\<close> (lines 81 to 112), one move at a time, since \<open>push\<close> runs
  beside it.  A move that the thread cannot make where it is leaves the state as it is.
  \<^item> \<open>Enter\<close>: the test of the outer loop; the thread goes on to block in
    \<open>wait_for\<close>, or leaves \<open>pop\<close> when \<open>sink_running_\<close> is false.
  \<^item> \<open>Timeout\<close>: \<open>wait_for\<close> returns \<open>timeout\<close>, which it can do whether or not
    a notification has reached the thread, and \<open>continue\<close> leads back to the test of
    the outer loop.
  \<^item> \<open>Wake\<close>: \<open>wait_for\<close> returns \<open>no_timeout\<close>, after a notification or
    spuriously, and the thread reaches the inner loop.
  \<^item> \<open>One\<close>: the test of the inner loop; one run of its body when the ring has
    elements, back to the outer loop when it has none.
\<close>

datatype pop_move = Enter | Timeout | Wake | One

definition pop :: "pop_move \<Rightarrow> 'a FrameBuffer \<Rightarrow> 'a FrameBuffer" where
  "pop m s =
     (case m of
        Enter \<Rightarrow>
          if pop_at s = Head
          then (if sink_running s then s\<lparr>pop_at := Waiting\<rparr> else s\<lparr>pop_at := Exited\<rparr>)
          else s
      | Timeout \<Rightarrow>
          if pop_at s = Waiting \<or> pop_at s = Notified
          then emit [CvWaitFor 10 timeout] (s\<lparr>pop_at := Head\<rparr>)
          else s
      | Wake \<Rightarrow>
          if pop_at s = Notified \<or> pop_at s = Waiting
          then emit [CvWaitFor 10 no_timeout] (s\<lparr>pop_at := Draining\<rparr>)
          else s
      | One \<Rightarrow>
          if pop_at s = Draining
          then (if read_available (buffer s) > 0 then publish s else s\<lparr>pop_at := Head\<rparr>)
          else s)"

text \<open>
  A run of the buffer is a list of labels: a call of \<open>push\<close> with what the source
  gives, a move of the \<open>pop\<close> thread, or \<open>Stop\<close>, the write of \<open>false\<close> to
  \<open>sink_running_\<close> (by code that is not among the sources).
\<close>

datatype 'a label = Push "'a option" | Pop pop_move | Stop

abbreviation PopEnter :: "'a label" where
  "PopEnter \<equiv> Pop Enter"

abbreviation PopTimeout :: "'a label" where
  "PopTimeout \<equiv> Pop Timeout"

abbreviation PopWake :: "'a label" where
  "PopWake \<equiv> Pop Wake"

abbreviation PopOne :: "'a label" where
  "PopOne \<equiv> Pop One"

definition step :: "nat \<Rightarrow> 'a label \<Rightarrow> 'a FrameBuffer \<Rightarrow> 'a FrameBuffer" where
  "step BUFFSIZE l s =
     (case l of
        Push w \<Rightarrow> snd (push BUFFSIZE w s)
      | Pop m \<Rightarrow> pop m s
      | Stop \<Rightarrow> s\<lparr>sink_running := False\<rparr>)"

fun exec :: "nat \<Rightarrow> 'a label list \<Rightarrow> 'a FrameBuffer \<Rightarrow> 'a FrameBuffer" where
  "exec BUFFSIZE [] s = s"
| "exec BUFFSIZE (l # ls) s = exec BUFFSIZE ls (step BUFFSIZE l s)"

text \<open>The buffer when \<open>connectToNode\<close> has started the \<open>pop\<close> thread.\<close>

definition init :: "'a FrameBuffer" where
  "init = \<lparr>buffer = [], shared_frame = None, sink_running = True, pop_at = Head, trace = []\<rparr>"

subsection \<open>What a run shows\<close>

text \<open>
  The samples handed to the ring with the answer of the ring (\<open>offers\<close>), the frames
  copied downstream (\<open>published\<close>), the number of overrun reports on \<open>std::cerr\<close>
  (\<open>overruns\<close>), the samples that the source delivers in a run (\<open>upstream\<close>), and the
  calls on the sink that publishing the elements of a ring makes (\<open>sink_events\<close>).
\<close>

definition offer_of :: "('s, 'a) event \<Rightarrow> ('a \<times> bool) list" where
  "offer_of e = (case e of RingPush x ok \<Rightarrow> [(x, ok)] | _ \<Rightarrow> [])"

definition offers :: "('s, 'a) event list \<Rightarrow> ('a \<times> bool) list" where
  "offers t = concat (map offer_of t)"

definition written_of :: "('s, 'a) event \<Rightarrow> 'a list" where
  "written_of e = (case e of SinkWrite x \<Rightarrow> [x] | _ \<Rightarrow> [])"

definition published :: "('s, 'a) event list \<Rightarrow> 'a list" where
  "published t = concat (map written_of t)"

definition overruns :: "('s, 'a) event list \<Rightarrow> nat" where
  "overruns t = length (filter (\<lambda>e. e = Print (cerr (plain ''Buffer overrun.\<newline>''))) t)"

definition sample_of :: "'a label \<Rightarrow> 'a list" where
  "sample_of l = (case l of Push (Some x) \<Rightarrow> [x] | _ \<Rightarrow> [])"

definition upstream :: "'a label list \<Rightarrow> 'a list" where
  "upstream ls = concat (map sample_of ls)"

definition sink_events :: "'a list \<Rightarrow> ('s, 'a) event list" where
  "sink_events q = concat (map (\<lambda>x. [SinkWait, SinkWrite x, SinkPost]) q)"

definition fifo_inv :: "'a FrameBuffer \<Rightarrow> bool" where
  "fifo_inv s \<longleftrightarrow>
     published (trace s) @ buffer s = map fst (filter snd (offers (trace s)))
     \<and> overruns (trace s) = length (filter (\<lambda>p. \<not> snd p) (offers (trace s)))"

definition waits_ok :: "('s, 'a) event list \<Rightarrow> bool" where
  "waits_ok t = list_all (\<lambda>e. case e of CvWaitFor d r \<Rightarrow> d \<le> 10 | _ \<Rightarrow> True) t"


section \<open>The critical sections of the endpoints\<close>

text \<open>
  A checker for the order of the calls.  It keeps the sources that are inside their
  critical section (a \<open>wait\<close> has returned a state other than \<open>END\<close> and the
  \<open>post\<close> has not been made) and whether the sink is inside its own (between its
  \<open>wait\<close> and its \<open>post\<close>).  It fails (\<open>None\<close>) on a \<open>wait\<close> of a source that
  is inside, on a read or a \<open>post\<close> of a source that is not, on a write to the shared
  frame or a \<open>post\<close> of the sink outside its section, and on a second \<open>wait\<close> of
  the sink inside.
\<close>

type_synonym 's holding = "'s list \<times> bool"

definition proto_step :: "'s holding \<Rightarrow> ('s, 'a) event \<Rightarrow> 's holding option" where
  "proto_step st e =
     (case st of (h, w) \<Rightarrow>
        (case e of
           SrcWait i n \<Rightarrow> if i \<in> set h then None else Some (if n = OK then i # h else h, w)
         | SrcRead i \<Rightarrow> if i \<in> set h then Some (h, w) else None
         | SrcPost i \<Rightarrow> if i \<in> set h then Some (removeAll i h, w) else None
         | SinkWait \<Rightarrow> if w then None else Some (h, True)
         | SinkWrite x \<Rightarrow> if w then Some (h, w) else None
         | SinkPost \<Rightarrow> if w then Some (h, False) else None
         | _ \<Rightarrow> Some (h, w)))"

fun check :: "'s holding \<Rightarrow> ('s, 'a) event list \<Rightarrow> 's holding option" where
  "check st [] = Some st"
| "check st (e # es) = (case proto_step st e of None \<Rightarrow> None | Some st' \<Rightarrow> check st' es)"

text \<open>
  A call with the result of a \<open>wait\<close> forgotten: for a program that does not look
  at what \<open>wait\<close> returns, the checker is run on the calls with every \<open>wait\<close>
  taken as one that returned \<open>OK\<close>, which leaves the order of the calls to check.
\<close>

definition any_state :: "('s, 'a) event \<Rightarrow> ('s, 'a) event" where
  "any_state e = (case e of SrcWait i n \<Rightarrow> SrcWait i OK | _ \<Rightarrow> e)"


section \<open>src/decorator/Decorator.cpp: process\<close>

text \<open>The sources of a decorator: \<open>frame_source_\<close> and \<open>pose_sources_[i].source\<close>.\<close>

datatype dsrc = frame_source | pose_source nat

text \<open>
  The loop over \<open>pose_sources_\<close> (lines 221 to 233), from index \<open>i\<close> on.  The list
  says, for each pose source from \<open>i\<close> on, what it gives: \<open>None\<close> when its
  \<open>wait()\<close> returns \<open>END\<close>, \<open>Some p\<close> when it returns another state and its
  \<open>clone()\<close> is \<open>p\<close>.  The result is the poses collected, or \<open>None\<close> when the
  loop ends in \<open>return 1\<close>, and the calls made.
\<close>

fun get_poses :: "nat \<Rightarrow> 'p option list \<Rightarrow> 'p list \<Rightarrow> 'p list option \<times> (dsrc, 'f) event list" where
  "get_poses i [] poses = (Some poses, [])"
| "get_poses i (None # ws) poses = (None, [SrcWait (pose_source i) END])"
| "get_poses i (Some p # ws) poses =
     (let (r, es) = get_poses (Suc i) ws (poses @ [p])
      in (r, [SrcWait (pose_source i) OK, SrcRead (pose_source i), SrcPost (pose_source i)] @ es))"

text \<open>
  \<open>Decorator::process\<close> (lines 198 to 254).  \<open>fw\<close> is what the frame source gives,
  \<open>pws\<close> what the pose sources give, \<open>decorate\<close> the drawing routine (defined
  further down in the file and pure computation on the frame).  The result is the
  \<open>int\<close> returned and the calls made.
\<close>

definition process ::
  "('f \<Rightarrow> 'p list \<Rightarrow> 'f) \<Rightarrow> 'f option \<Rightarrow> 'p option list \<Rightarrow> int \<times> (dsrc, 'f) event list" where
  "process decorate fw pws =
     (case fw of
        None \<Rightarrow> (1, [SrcWait frame_source END])
      | Some frame \<Rightarrow>
          (let es = [SrcWait frame_source OK, SrcRead frame_source, SrcPost frame_source] in
           (case get_poses 0 pws [] of
              (None, es') \<Rightarrow> (1, es @ es')
            | (Some poses, es') \<Rightarrow>
                (let frame = decorate frame poses
                 in (0, es @ es' @ [SinkWait, SinkWrite frame, SinkPost])))))"


section \<open>experiments/src/matclient.cpp\<close>

text \<open>
  The program has the one global \<open>quit\<close>; its handler sets it to 1 whatever the
  signal and whatever the value before.
\<close>

definition matclient_sigHandler :: "int \<Rightarrow> int \<Rightarrow> int" where
  "matclient_sigHandler s q = 1"

text \<open>
  One run of the loop body (lines 77 to 86) as the loop sees it: whether \<open>SIGINT\<close> is
  delivered during it, and for each call that can raise an exception whether it does:
  \<open>cloneFrame\<close>, \<open>post\<close>, the two display calls, and \<open>wait\<close>, of which the result
  is not used.  The \<open>Source\<close> of this program is not among the sources.
\<close>

record miter =
  m_sigint :: bool
  m_clone :: "error option"
  m_post :: "error option"
  m_show :: "error option"
  m_wait :: "error + NodeState"

text \<open>
  The loop \<open>while (!quit)\<close> (lines 75 to 87); \<open>q\<close> is the global \<open>quit\<close>.  The
  result is \<open>None\<close> when the list is used up and the loop would go on; otherwise it
  is the exception that left the loop, if any, the calls made on the source, and the
  number of runs of the body.
\<close>

fun matclient_loop :: "miter list \<Rightarrow> int \<Rightarrow> (error option \<times> (unit, 'a) event list \<times> nat) option" where
  "matclient_loop [] q = (if q = 0 then None else Some (None, [], 0))"
| "matclient_loop (i # its) q =
     (if q = 0 then
        (let q = (if m_sigint i then matclient_sigHandler SIGINT q else q) in
         (case m_clone i of
            Some e \<Rightarrow> Some (Some e, [], 1)
          | None \<Rightarrow>
         (case m_post i of
            Some e \<Rightarrow> Some (Some e, [SrcRead ()], 1)
          | None \<Rightarrow>
         (case m_show i of
            Some e \<Rightarrow> Some (Some e, [SrcRead (), SrcPost ()], 1)
          | None \<Rightarrow>
         (case m_wait i of
            Inl e \<Rightarrow> Some (Some e, [SrcRead (), SrcPost ()], 1)
          | Inr st \<Rightarrow>
              map_option (\<lambda>(r, es, n). (r, [SrcRead (), SrcPost (), SrcWait () st] @ es, Suc n))
                (matclient_loop its q))))))
      else Some (None, [], 0))"

text \<open>
  The handler \<open>catch (const std::exception& ex)\<close> prints \<open>ex.what()\<close> and returns -1;
  an exception that is not a \<open>std::exception\<close> is not caught.
\<close>

definition caught :: "error \<Rightarrow> status \<times> out list" where
  "caught e = (if e = other_exception then (terminated, []) else (returned (- 1), [cerr (what e)]))"

text \<open>
  \<open>main\<close> from the first \<open>source.wait()\<close> (line 66) on: that call, \<open>getHeader\<close>,
  the loop.  The result is how the program ends, what it prints, and the calls made on
  the source.
\<close>

definition matclient_main ::
  "error + NodeState \<Rightarrow> error option \<Rightarrow> miter list \<Rightarrow> int
     \<Rightarrow> ((status \<times> out list) \<times> (unit, 'a) event list) option" where
  "matclient_main first_wait header its q =
     (case first_wait of
        Inl e \<Rightarrow> Some (caught e, [])
      | Inr st \<Rightarrow>
          (case header of
             Some e \<Rightarrow> Some (caught e, [SrcWait () st])
           | None \<Rightarrow>
               (case matclient_loop its q of
                  None \<Rightarrow> None
                | Some (None, es, n) \<Rightarrow> Some ((returned 0, []), SrcWait () st # es)
                | Some (Some e, es, n) \<Rightarrow> Some (caught e, SrcWait () st # es))))"

text \<open>A run of the body in which no call throws.\<close>

definition completes :: "miter \<Rightarrow> bool" where
  "completes i \<longleftrightarrow> m_clone i = None \<and> m_post i = None \<and> m_show i = None
                   \<and> (case m_wait i of Inl e \<Rightarrow> False | Inr st \<Rightarrow> True)"


section \<open>Theorems\<close>

subsection \<open>The claims about configuration and positions\<close>

text \<open>
  Claim C10.  For every parsed option map, \<open>extractConfigFileKey\<close> returns the empty
  vector when the option \<open>config\<close> is empty (was not given), returns the stored vector
  when \<open>config\<close> holds exactly two strings, and throws a \<open>std::runtime_error\<close> for a
  stored vector of any other length; the map is the same after the call.
\<close>

theorem extractConfigFileKey_cases:
  "(vmap ''config'' = None \<longrightarrow> snd (extractConfigFileKey vmap) = Inr [])
   \<and> (vmap ''config'' = Some (StringVector xs) \<and> length xs = 2
        \<longrightarrow> snd (extractConfigFileKey vmap) = Inr xs)
   \<and> (vmap ''config'' = Some (StringVector xs) \<and> length xs \<noteq> 2
        \<longrightarrow> snd (extractConfigFileKey vmap)
            = Inl (runtime_error ''Configuration must be supplied as file key pair.\<newline>''))
   \<and> fst (extractConfigFileKey vmap) = vmap"
  by (auto simp: extractConfigFileKey_def as_string_vector_def split: option.splits variable_value.splits)

theorem extractConfigFileKey_cases_witness:
  "Map.empty ''config'' = (None :: variable_value option)
   \<and> snd (extractConfigFileKey Map.empty) = Inr []
   \<and> length [''cfg.toml'', ''key''] = 2
   \<and> snd (extractConfigFileKey [''config'' \<mapsto> StringVector [''cfg.toml'', ''key'']])
       = Inr [''cfg.toml'', ''key'']
   \<and> length [''cfg.toml''] \<noteq> 2
   \<and> snd (extractConfigFileKey [''config'' \<mapsto> StringVector [''cfg.toml'']])
       = Inl (runtime_error ''Configuration must be supplied as file key pair.\<newline>'')
   \<and> fst (extractConfigFileKey [''config'' \<mapsto> StringVector [''cfg.toml'']])
       = [''config'' \<mapsto> StringVector [''cfg.toml'']]"
  using extractConfigFileKey_cases [of Map.empty]
    extractConfigFileKey_cases [of "[''config'' \<mapsto> StringVector [''cfg.toml'', ''key'']]" "[''cfg.toml'', ''key'']"]
    extractConfigFileKey_cases [of "[''config'' \<mapsto> StringVector [''cfg.toml'']]" "[''cfg.toml'']"]
  by simp

text \<open>
  Claim C8.  For every \<open>Position2D\<close> value \<open>p\<close>, \<open>convertToWorldCoordinates\<close>
  leaves \<open>p\<close> itself as it was and is idempotent: if \<open>p\<close> is not in pixel coordinates
  or its homography is not valid, the result is a copy equal to \<open>p\<close>; otherwise the
  result has \<open>coord_system = WORLD\<close> and the head direction of \<open>p\<close>, and a second
  application to the result gives the result again.  The two enumerators are taken
  as different numbers.
\<close>

theorem convertToWorldCoordinates_idempotent:
  assumes "PIXELS api \<noteq> WORLD api"
  shows "fst (convertToWorldCoordinates api p) = p
    \<and> (coord_system p \<noteq> PIXELS api \<or> \<not> homography_valid p
         \<longrightarrow> snd (convertToWorldCoordinates api p) = p)
    \<and> (coord_system p = PIXELS api \<and> homography_valid p
         \<longrightarrow> coord_system (snd (convertToWorldCoordinates api p)) = WORLD api
           \<and> head_direction (snd (convertToWorldCoordinates api p)) = head_direction p)
    \<and> convertToWorldCoordinates api (snd (convertToWorldCoordinates api p))
        = (snd (convertToWorldCoordinates api p), snd (convertToWorldCoordinates api p))"
  using assms by (auto simp: convertToWorldCoordinates_def Let_def)

theorem convertToWorldCoordinates_idempotent_witness:
  "PIXELS \<lparr>PIXELS = 0, WORLD = 1, transform_f = (\<lambda>(p::int) (m::int). p * m),
            transform_d = (\<lambda>(p::int) (d::int). p * d), vel_homo = (\<lambda>m::int. m)\<rparr>
     \<noteq> WORLD \<lparr>PIXELS = 0, WORLD = 1, transform_f = (\<lambda>(p::int) (m::int). p * m),
            transform_d = (\<lambda>(p::int) (d::int). p * d), vel_homo = (\<lambda>m::int. m)\<rparr>
   \<and> coord_system (snd (convertToWorldCoordinates
         \<lparr>PIXELS = 0, WORLD = 1, transform_f = (\<lambda>(p::int) (m::int). p * m),
          transform_d = (\<lambda>(p::int) (d::int). p * d), vel_homo = (\<lambda>m::int. m)\<rparr>
         \<lparr>label = ''default'', coord_system = 0, homography_valid = True, homography = 2,
          position_valid = True, position = 3, velocity_valid = True, velocity = 5,
          head_direction_valid = True, head_direction = 7\<rparr>)) = 1
   \<and> head_direction (snd (convertToWorldCoordinates
         \<lparr>PIXELS = 0, WORLD = 1, transform_f = (\<lambda>(p::int) (m::int). p * m),
          transform_d = (\<lambda>(p::int) (d::int). p * d), vel_homo = (\<lambda>m::int. m)\<rparr>
         \<lparr>label = ''default'', coord_system = 0, homography_valid = True, homography = 2,
          position_valid = True, position = 3, velocity_valid = True, velocity = 5,
          head_direction_valid = True, head_direction = 7\<rparr>)) = 7"
  using convertToWorldCoordinates_idempotent
    [of "\<lparr>PIXELS = 0, WORLD = 1, transform_f = (\<lambda>(p::int) (m::int). p * m),
          transform_d = (\<lambda>(p::int) (d::int). p * d), vel_homo = (\<lambda>m::int. m)\<rparr>"
        "\<lparr>label = ''default'', coord_system = 0, homography_valid = True, homography = 2,
          position_valid = True, position = 3, velocity_valid = True, velocity = 5,
          head_direction_valid = True, head_direction = 7\<rparr>"]
  by simp

text \<open>
  Claim C9, as the code has it.  For every configuration that supplies the two-element
  array \<open>area\<close> (\<open>getArray\<close> reports the key found and hands back \<open>[a0, a1]\<close>),
  \<open>applyConfiguration\<close> throws if and only if \<open>a0 \<ge> a1\<close> or one of its other
  look-ups throws (\<open>diff-threshold\<close>, \<open>blur\<close>, \<open>tune\<close>); when the two look-ups
  before the area return and \<open>a0 \<ge> a1\<close>, what it throws is the runtime error of line
  91; when it does not throw, \<open>min_object_area\<close> is \<open>a0\<close> and \<open>max_object_area\<close> is
  \<open>a1\<close>.
\<close>

theorem applyConfiguration_area:
  assumes "getArray api cfg ''area'' [] = Inr (True, [a0, a1])"
  shows "(fst (applyConfiguration api cfg blur this) \<noteq> None \<longleftrightarrow>
            isl (getNumericValue api cfg ''diff-threshold'' (difference_intensity_threshold this) 0)
            \<or> isl (getNumericValue api cfg ''blur'' blur 0)
            \<or> a0 \<ge> a1
            \<or> isl (getValue api cfg ''tune'' (tuning_on this)))
    \<and> (\<not> isl (getNumericValue api cfg ''diff-threshold'' (difference_intensity_threshold this) 0)
         \<and> \<not> isl (getNumericValue api cfg ''blur'' blur 0) \<and> a0 \<ge> a1
         \<longrightarrow> fst (applyConfiguration api cfg blur this)
               = Some (runtime_error ''Max area should be larger than min area.''))
    \<and> (fst (applyConfiguration api cfg blur this) = None
         \<longrightarrow> min_object_area (snd (applyConfiguration api cfg blur this)) = a0
           \<and> max_object_area (snd (applyConfiguration api cfg blur this)) = a1)"
proof (cases "getNumericValue api cfg ''diff-threshold'' (difference_intensity_threshold this) 0")
  case (Inl e)
  then show ?thesis by (simp add: applyConfiguration_def)
next
  case r1: (Inr p1)
  show ?thesis
  proof (cases "getNumericValue api cfg ''blur'' blur 0")
    case (Inl e)
    with r1 show ?thesis
      by (cases p1) (simp add: applyConfiguration_def Let_def)
  next
    case r2: (Inr p2)
    show ?thesis
    proof (cases "getValue api cfg ''tune'' (tuning_on this)")
      case (Inl e)
      with r1 r2 assms show ?thesis
        by (cases p1; cases p2)
           (simp add: applyConfiguration_def apply_area_def set_blur_size_def Let_def)
    next
      case (Inr p4)
      with r1 r2 assms show ?thesis
        by (cases p1; cases p2; cases p4)
           (simp add: applyConfiguration_def apply_area_def set_blur_size_def Let_def)
    qed
  qed
qed

theorem applyConfiguration_area_witness:
  "fst (applyConfiguration
          \<lparr>getNumericValue = (\<lambda>(c::unit) k cur lo. Inr (False, cur)),
           getArray = (\<lambda>c k cur. Inr (True, [100, 400 :: int])),
           getValue = (\<lambda>c k cur. Inr (False, cur)), to_int = (\<lambda>a. a)\<rparr>
          () 0
          \<lparr>difference_intensity_threshold = 10, blur_on = True, blur_size = (2, 2), min_object_area = 0,
           max_object_area = 1000, dummy0 = 0, dummy1 = 1000, tuning_on = False\<rparr>) = None
   \<and> min_object_area (snd (applyConfiguration
          \<lparr>getNumericValue = (\<lambda>(c::unit) k cur lo. Inr (False, cur)),
           getArray = (\<lambda>c k cur. Inr (True, [100, 400 :: int])),
           getValue = (\<lambda>c k cur. Inr (False, cur)), to_int = (\<lambda>a. a)\<rparr>
          () 0
          \<lparr>difference_intensity_threshold = 10, blur_on = True, blur_size = (2, 2), min_object_area = 0,
           max_object_area = 1000, dummy0 = 0, dummy1 = 1000, tuning_on = False\<rparr>)) = 100
   \<and> max_object_area (snd (applyConfiguration
          \<lparr>getNumericValue = (\<lambda>(c::unit) k cur lo. Inr (False, cur)),
           getArray = (\<lambda>c k cur. Inr (True, [100, 400 :: int])),
           getValue = (\<lambda>c k cur. Inr (False, cur)), to_int = (\<lambda>a. a)\<rparr>
          () 0
          \<lparr>difference_intensity_threshold = 10, blur_on = True, blur_size = (2, 2), min_object_area = 0,
           max_object_area = 1000, dummy0 = 0, dummy1 = 1000, tuning_on = False\<rparr>)) = 400
   \<and> fst (applyConfiguration
          \<lparr>getNumericValue = (\<lambda>(c::unit) k cur lo. Inr (False, cur)),
           getArray = (\<lambda>c k cur. Inr (True, [400, 400 :: int])),
           getValue = (\<lambda>c k cur. Inr (False, cur)), to_int = (\<lambda>a. a)\<rparr>
          () 0
          \<lparr>difference_intensity_threshold = 10, blur_on = True, blur_size = (2, 2), min_object_area = 0,
           max_object_area = 1000, dummy0 = 0, dummy1 = 1000, tuning_on = False\<rparr>)
       = Some (runtime_error ''Max area should be larger than min area.'')"
proof -
  have a: "fst (applyConfiguration
          \<lparr>getNumericValue = (\<lambda>(c::unit) k cur lo. Inr (False, cur)),
           getArray = (\<lambda>c k cur. Inr (True, [100, 400 :: int])),
           getValue = (\<lambda>c k cur. Inr (False, cur)), to_int = (\<lambda>a. a)\<rparr>
          () 0
          \<lparr>difference_intensity_threshold = 10, blur_on = True, blur_size = (2, 2), min_object_area = 0,
           max_object_area = 1000, dummy0 = 0, dummy1 = 1000, tuning_on = False\<rparr>) = None
     \<and> min_object_area (snd (applyConfiguration
          \<lparr>getNumericValue = (\<lambda>(c::unit) k cur lo. Inr (False, cur)),
           getArray = (\<lambda>c k cur. Inr (True, [100, 400 :: int])),
           getValue = (\<lambda>c k cur. Inr (False, cur)), to_int = (\<lambda>a. a)\<rparr>
          () 0
          \<lparr>difference_intensity_threshold = 10, blur_on = True, blur_size = (2, 2), min_object_area = 0,
           max_object_area = 1000, dummy0 = 0, dummy1 = 1000, tuning_on = False\<rparr>)) = 100
     \<and> max_object_area (snd (applyConfiguration
          \<lparr>getNumericValue = (\<lambda>(c::unit) k cur lo. Inr (False, cur)),
           getArray = (\<lambda>c k cur. Inr (True, [100, 400 :: int])),
           getValue = (\<lambda>c k cur. Inr (False, cur)), to_int = (\<lambda>a. a)\<rparr>
          () 0
          \<lparr>difference_intensity_threshold = 10, blur_on = True, blur_size = (2, 2), min_object_area = 0,
           max_object_area = 1000, dummy0 = 0, dummy1 = 1000, tuning_on = False\<rparr>)) = 400"
    using applyConfiguration_area
      [where api = "\<lparr>getNumericValue = (\<lambda>(c::unit) k cur lo. Inr (False, cur)),
           getArray = (\<lambda>c k cur. Inr (True, [100, 400 :: int])),
           getValue = (\<lambda>c k cur. Inr (False, cur)), to_int = (\<lambda>a. a)\<rparr>"
         and cfg = "()" and blur = 0 and ?a0.0 = 100 and ?a1.0 = 400 and this =
          "\<lparr>difference_intensity_threshold = 10, blur_on = True, blur_size = (2, 2), min_object_area = 0,
           max_object_area = 1000, dummy0 = 0, dummy1 = 1000, tuning_on = False\<rparr>"]
    by auto
  have b: "fst (applyConfiguration
          \<lparr>getNumericValue = (\<lambda>(c::unit) k cur lo. Inr (False, cur)),
           getArray = (\<lambda>c k cur. Inr (True, [400, 400 :: int])),
           getValue = (\<lambda>c k cur. Inr (False, cur)), to_int = (\<lambda>a. a)\<rparr>
          () 0
          \<lparr>difference_intensity_threshold = 10, blur_on = True, blur_size = (2, 2), min_object_area = 0,
           max_object_area = 1000, dummy0 = 0, dummy1 = 1000, tuning_on = False\<rparr>)
       = Some (runtime_error ''Max area should be larger than min area.'')"
    using applyConfiguration_area
      [where api = "\<lparr>getNumericValue = (\<lambda>(c::unit) k cur lo. Inr (False, cur)),
           getArray = (\<lambda>c k cur. Inr (True, [400, 400 :: int])),
           getValue = (\<lambda>c k cur. Inr (False, cur)), to_int = (\<lambda>a. a)\<rparr>"
         and cfg = "()" and blur = 0 and ?a0.0 = 400 and ?a1.0 = 400 and this =
          "\<lparr>difference_intensity_threshold = 10, blur_on = True, blur_size = (2, 2), min_object_area = 0,
           max_object_area = 1000, dummy0 = 0, dummy1 = 1000, tuning_on = False\<rparr>"]
    by auto
  from a b show ?thesis by blast
qed

text \<open>
  Against claim C9 as stated: a configuration that supplies the area \<open>[100, 400]\<close> and
  for which the look-up of \<open>diff-threshold\<close> throws.  The call throws, and 100 is
  less than 400.
\<close>

theorem applyConfiguration_other_lookup_counterexample:
  "getArray
          \<lparr>getNumericValue = (\<lambda>(c::unit) k cur lo.
             if k = ''diff-threshold'' then Inl (runtime_error ''diff-threshold'') else Inr (False, cur)),
           getArray = (\<lambda>c k cur. Inr (True, [100, 400 :: int])),
           getValue = (\<lambda>c k cur. Inr (False, cur)), to_int = (\<lambda>a. a)\<rparr>
          () ''area'' [] = Inr (True, [100, 400])
   \<and> (100 :: int) < 400
   \<and> fst (applyConfiguration
          \<lparr>getNumericValue = (\<lambda>(c::unit) k cur lo.
             if k = ''diff-threshold'' then Inl (runtime_error ''diff-threshold'') else Inr (False, cur)),
           getArray = (\<lambda>c k cur. Inr (True, [100, 400 :: int])),
           getValue = (\<lambda>c k cur. Inr (False, cur)), to_int = (\<lambda>a. a)\<rparr>
          () 0
          \<lparr>difference_intensity_threshold = 10, blur_on = True, blur_size = (2, 2), min_object_area = 0,
           max_object_area = 1000, dummy0 = 0, dummy1 = 1000, tuning_on = False\<rparr>)
       = Some (runtime_error ''diff-threshold'')"
  by (simp add: applyConfiguration_def)

subsection \<open>The driver loop\<close>

text \<open>
  If every call before \<open>c\<close> returns and \<open>c\<close> returns with the signal delivered or
  with end of stream, the loop ends normally and makes no call after \<open>c\<close>.
\<close>

lemma run_stops:
  assumes "\<forall>c \<in> set pre. \<exists>b. returns c = Inr b" and "returns c = Inr b" and "sigint c \<or> b"
  shows "\<exists>g' n. run (pre @ c # rest) g = Some (Inr g', n) \<and> n \<le> Suc (length pre)
           \<and> (quit g' \<noteq> 0 \<or> source_eof g' \<noteq> 0)"
  using assms
proof (induction pre arbitrary: g)
  case Nil
  then show ?case
    by (cases rest) (auto simp: sigHandler_def Let_def)
next
  case (Cons a pre)
  from Cons.prems obtain ba where a: "returns a = Inr ba" by auto
  have pre: "\<forall>c \<in> set pre. \<exists>b. returns c = Inr b" using Cons.prems by simp
  show ?case
  proof (cases "quit g = 0 \<and> source_eof g = 0")
    case False
    then show ?thesis by auto
  next
    case True
    let ?g = "(if sigint a then sigHandler SIGINT g else g)\<lparr>source_eof := (if ba then 1 else 0)\<rparr>"
    from Cons.IH [OF pre Cons.prems(2) Cons.prems(3), of ?g]
    obtain g' n where "run (pre @ c # rest) ?g = Some (Inr g', n)" "n \<le> Suc (length pre)"
      "quit g' \<noteq> 0 \<or> source_eof g' \<noteq> 0" by blast
    with True a show ?thesis by (auto simp: Let_def)
  qed
qed

text \<open>With both flags clear at the start and no signal and no end of stream before
  \<open>c\<close>, the call \<open>c\<close> is made and is the last one.\<close>

lemma run_exact:
  assumes "quit g = 0" and "source_eof g = 0"
    and "\<forall>c \<in> set pre. returns c = Inr False \<and> \<not> sigint c"
    and "returns c = Inr b" and "sigint c \<or> b"
  shows "run (pre @ c # rest) g
           = Some (Inr ((if sigint c then sigHandler SIGINT g else g)\<lparr>source_eof := (if b then 1 else 0)\<rparr>),
                   Suc (length pre))"
  using assms
proof (induction pre arbitrary: g)
  case Nil
  then show ?case
    by (cases rest) (auto simp: sigHandler_def Let_def)
next
  case (Cons a pre)
  have g: "g\<lparr>source_eof := 0\<rparr> = g" using Cons.prems(2) by simp
  have a: "returns a = Inr False" "\<not> sigint a" using Cons.prems(3) by simp_all
  have pre: "\<forall>c \<in> set pre. returns c = Inr False \<and> \<not> sigint c" using Cons.prems(3) by simp
  have "run ((a # pre) @ c # rest) g
          = map_option (\<lambda>(r, n). (r, Suc n)) (run (pre @ c # rest) g)"
    using Cons.prems(1,2) a by (simp add: Let_def g)
  also have "run (pre @ c # rest) g
          = Some (Inr ((if sigint c then sigHandler SIGINT g else g)\<lparr>source_eof := (if b then 1 else 0)\<rparr>),
                   Suc (length pre))"
    by (rule Cons.IH [OF Cons.prems(1) Cons.prems(2) pre Cons.prems(4) Cons.prems(5)])
  finally show ?case by simp
qed

lemma matclient_stops:
  assumes "\<forall>i \<in> set pre. completes i" and "completes c" and "m_sigint c"
  shows "\<exists>es n. (matclient_loop (pre @ c # rest) q :: (error option \<times> (unit, 'a) event list \<times> nat) option)
                   = Some (None, es, n) \<and> n \<le> Suc (length pre)"
  using assms
proof (induction pre arbitrary: q)
  case Nil
  then show ?case
    by (cases rest) (auto simp: completes_def matclient_sigHandler_def Let_def split: sum.splits)
next
  case (Cons a pre)
  have pre: "\<forall>i \<in> set pre. completes i" using Cons.prems by simp
  from Cons.prems obtain st where a: "m_clone a = None" "m_post a = None" "m_show a = None" "m_wait a = Inr st"
    by (auto simp: completes_def split: sum.splits)
  show ?case
  proof (cases "q = 0")
    case False
    then show ?thesis by simp
  next
    case True
    from Cons.IH [OF pre Cons.prems(2) Cons.prems(3), of "if m_sigint a then matclient_sigHandler SIGINT q else q"]
    obtain es :: "(unit, 'a) event list" and n
      where "matclient_loop (pre @ c # rest) (if m_sigint a then matclient_sigHandler SIGINT q else q)
               = Some (None, es, n)"
        "n \<le> Suc (length pre)" by blast
    with True a show ?thesis by (auto simp: Let_def split: if_splits)
  qed
qed

subsection \<open>The ring and the run of the buffer\<close>

lemma push_None: "push cap None s = (True, s\<lparr>trace := trace s @ [SrcWait () END]\<rparr>)"
  by (simp add: push_def emit_def)

lemma push_accept:
  assumes "length (buffer s) < cap"
  shows "push cap (Some x) s =
           (False, s\<lparr>buffer := buffer s @ [x],
                     pop_at := (if pop_at s = Waiting then Notified else pop_at s),
                     trace := trace s @ [SrcWait () OK, SrcRead (), RingPush x True, SrcPost (), CvNotify]\<rparr>)"
  using assms by (simp add: push_def emit_def notify_one_def spsc_push_def)

lemma push_overrun:
  assumes "cap \<le> length (buffer s)"
  shows "push cap (Some x) s =
           (False, s\<lparr>pop_at := (if pop_at s = Waiting then Notified else pop_at s),
                     trace := trace s @ [SrcWait () OK, SrcRead (), RingPush x False,
                                         Print (cerr (plain ''Buffer overrun.\<newline>'')),
                                         SrcPost (), CvNotify]\<rparr>)"
  using assms by (simp add: push_def emit_def notify_one_def spsc_push_def)

lemma publish_Cons:
  assumes "buffer s = x # q"
  shows "publish s = s\<lparr>buffer := q, shared_frame := Some x,
                        trace := trace s @ [SinkWait, SinkWrite x, SinkPost]\<rparr>"
  using assms by (simp add: publish_def emit_def)

lemma upstream_Cons: "upstream (l # ls) = sample_of l @ upstream ls"
  by (simp add: upstream_def)

lemma upstream_Nil: "upstream [] = []"
  by (simp add: upstream_def)

lemma waits_ok_append: "waits_ok (a @ b) \<longleftrightarrow> waits_ok a \<and> waits_ok b"
  by (simp add: waits_ok_def)

lemma check_append:
  "check st (a @ b) = (case check st a of None \<Rightarrow> None | Some st' \<Rightarrow> check st' b)"
  by (induction a arbitrary: st) (simp_all split: option.splits)

lemma exec_append: "exec cap (a @ b) s = exec cap b (exec cap a s)"
  by (induction a arbitrary: s) simp_all

text \<open>
  What one step adds to the calls made: a step never changes what is there, every wait
  on the condition variable it adds is one of 10 ms, and the calls it adds enter and
  leave the critical sections in order.  It keeps \<open>fifo_inv\<close>, and the samples it hands
  to the ring are those of its label.
\<close>

lemma step_props:
  "(\<exists>es. trace (step cap l s) = trace s @ es \<and> waits_ok es
         \<and> check ([], False) es = Some ([], False))
   \<and> (fifo_inv s \<longrightarrow> fifo_inv (step cap l s))
   \<and> map fst (offers (trace (step cap l s))) = map fst (offers (trace s)) @ sample_of l"
proof (cases l)
  case (Push w)
  show ?thesis
  proof (cases w)
    case None
    with Push show ?thesis
      by (simp add: step_def push_None waits_ok_def proto_step_def fifo_inv_def offers_def
                    offer_of_def published_def written_of_def overruns_def sample_of_def)
  next
    case (Some x)
    show ?thesis
    proof (cases "length (buffer s) < cap")
      case True
      with Push Some show ?thesis
        by (simp add: step_def push_accept waits_ok_def proto_step_def fifo_inv_def offers_def
                      offer_of_def published_def written_of_def overruns_def sample_of_def)
    next
      case False
      then have "cap \<le> length (buffer s)" by simp
      with Push Some show ?thesis
        by (simp add: step_def push_overrun waits_ok_def proto_step_def fifo_inv_def offers_def
                      offer_of_def published_def written_of_def overruns_def sample_of_def)
    qed
  qed
next
  case (Pop m)
  show ?thesis
  proof (cases m)
    case One
    with Pop show ?thesis
      by (cases "buffer s")
         (simp_all add: step_def pop_def read_available_def publish_Cons waits_ok_def
                        proto_step_def fifo_inv_def offers_def offer_of_def published_def
                        written_of_def overruns_def sample_of_def)
  qed (simp_all add: Pop step_def pop_def emit_def waits_ok_def proto_step_def fifo_inv_def
                     offers_def offer_of_def published_def written_of_def overruns_def
                     sample_of_def)
next
  case Stop
  then show ?thesis
    by (simp add: step_def waits_ok_def fifo_inv_def offers_def sample_of_def)
qed

lemma exec_fifo_inv: "fifo_inv s \<Longrightarrow> fifo_inv (exec cap ls s)"
  by (induction ls arbitrary: s) (simp_all add: step_props)

lemma exec_offers:
  "map fst (offers (trace (exec cap ls s))) = map fst (offers (trace s)) @ upstream ls"
  by (induction ls arbitrary: s) (simp_all add: step_props upstream_Cons upstream_Nil)

lemma fifo_inv_init: "fifo_inv init"
  by (simp add: fifo_inv_def init_def offers_def published_def overruns_def)

lemma accounting:
  assumes "fifo_inv s"
  shows "length (offers (trace s)) = length (published (trace s)) + overruns (trace s) + length (buffer s)"
proof -
  have "length (offers (trace s))
          = length (filter snd (offers (trace s))) + length (filter (\<lambda>p. \<not> snd p) (offers (trace s)))"
    by (rule sum_length_filter_compl [symmetric])
  also have "length (filter snd (offers (trace s))) = length (published (trace s) @ buffer s)"
    using assms by (simp add: fifo_inv_def)
  finally show ?thesis using assms by (simp add: fifo_inv_def)
qed

lemma exec_trace:
  assumes "waits_ok (trace s)" and "check ([], False) (trace s) = Some ([], False)"
  shows "waits_ok (trace (exec cap ls s)) \<and> check ([], False) (trace (exec cap ls s)) = Some ([], False)"
  using assms
proof (induction ls arbitrary: s)
  case Nil
  then show ?case by simp
next
  case (Cons l ls)
  obtain es where es: "trace (step cap l s) = trace s @ es" "waits_ok es"
    "check ([], False) es = Some ([], False)"
    using step_props [of cap l s] by blast
  have "waits_ok (trace (step cap l s))"
    using es Cons.prems by (simp add: waits_ok_append)
  moreover have "check ([], False) (trace (step cap l s)) = Some ([], False)"
    using es Cons.prems by (simp add: check_append)
  ultimately show ?case
    using Cons.IH [of "step cap l s"] by simp
qed

text \<open>The inner loop of \<open>pop\<close>, run without a \<open>push\<close> in between, publishes the
  ring from the oldest element to the newest and leaves it empty.\<close>

lemma drain:
  assumes "pop_at s = Draining" and "buffer s = q"
  shows "exec cap (replicate (length q) PopOne) s
           = s\<lparr>buffer := [],
               shared_frame := (if q = [] then shared_frame s else Some (last q)),
               trace := trace s @ sink_events q\<rparr>"
  using assms
proof (induction q arbitrary: s)
  case Nil
  then show ?case by (simp add: sink_events_def)
next
  case (Cons x q)
  let ?s = "s\<lparr>buffer := q, shared_frame := Some x, trace := trace s @ [SinkWait, SinkWrite x, SinkPost]\<rparr>"
  have st: "step cap PopOne s = ?s"
    using Cons.prems by (simp add: step_def pop_def read_available_def publish_Cons)
  have "exec cap (replicate (length (x # q)) PopOne) s = exec cap (replicate (length q) PopOne) ?s"
    by (simp add: st)
  also have "\<dots> = ?s\<lparr>buffer := [],
               shared_frame := (if q = [] then shared_frame ?s else Some (last q)),
               trace := trace ?s @ sink_events q\<rparr>"
    by (rule Cons.IH) (simp_all add: Cons.prems)
  also have "\<dots> = s\<lparr>buffer := [],
               shared_frame := (if x # q = [] then shared_frame s else Some (last (x # q))),
               trace := trace s @ sink_events (x # q)\<rparr>"
    by (simp add: sink_events_def)
  finally show ?case .
qed

lemma drain_exit:
  assumes "pop_at s = Draining"
  shows "exec cap (replicate (length (buffer s)) PopOne @ [PopOne]) s
           = s\<lparr>buffer := [],
               shared_frame := (if buffer s = [] then shared_frame s else Some (last (buffer s))),
               pop_at := Head,
               trace := trace s @ sink_events (buffer s)\<rparr>"
  using assms
  by (simp add: exec_append drain [OF assms refl] step_def pop_def read_available_def)

subsection \<open>The critical sections\<close>

lemma check_get_poses:
  "check (h, w) (snd (get_poses i ws poses) @ rest) = check (h, w) rest"
  if "\<forall>j. pose_source j \<notin> set h"
  using that
proof (induction i ws poses arbitrary: rest rule: get_poses.induct)
  case (1 i poses)
  then show ?case by simp
next
  case (2 i ws poses)
  then show ?case by (simp add: proto_step_def)
next
  case (3 i p ws poses)
  then show ?case
    by (simp add: proto_step_def case_prod_beta)
qed

lemma check_process: "check ([], False) (snd (process decorate fw pws)) = Some ([], False)"
proof (cases fw)
  case None
  then show ?thesis by (simp add: process_def proto_step_def)
next
  case (Some frame)
  obtain r and es :: "(dsrc, 'a) event list" where g: "get_poses 0 pws [] = (r, es)"
    by (cases "get_poses 0 pws [] :: 'b list option \<times> (dsrc, 'a) event list") blast
  have es: "check ([], False) (es @ rest) = check ([], False) rest" for rest :: "(dsrc, 'a) event list"
    using check_get_poses [of "[]" False 0 pws "[]" rest] g by simp
  show ?thesis
  proof (cases r)
    case None
    with Some g es [of "[]"] show ?thesis
      by (simp add: process_def proto_step_def)
  next
    case (Some poses)
    with \<open>fw = Some frame\<close> g es [of "[SinkWait, SinkWrite (decorate frame poses), SinkPost]"]
    show ?thesis
      by (simp add: process_def proto_step_def)
  qed
qed

text \<open>
  The loop of matclient, entered after a \<open>wait\<close>: whatever the calls return or throw,
  no read and no \<open>post\<close> is made outside the stretch between a \<open>wait\<close> and the
  next \<open>post\<close>, and a loop that ends without an exception ends after a \<open>wait\<close>.
\<close>

lemma any_state_simps:
  "any_state (SrcWait i n) = SrcWait i OK"
  "any_state (SrcRead i) = SrcRead i"
  "any_state (SrcPost i) = SrcPost i"
  by (simp_all add: any_state_def)

lemma matclient_order:
  assumes "matclient_loop its q = Some (ex, es, n)"
  shows "\<exists>h. check ([()], False) (map any_state es) = Some (h, False) \<and> (ex = None \<longrightarrow> h = [()])"
  using assms
proof (induction its arbitrary: q es n)
  case Nil
  then show ?case by (simp split: if_splits)
next
  case (Cons a its)
  show ?case
  proof (cases "q = 0")
    case False
    with Cons.prems show ?thesis by simp
  next
    case q: True
    show ?thesis
    proof (cases "m_clone a")
      case (Some e)
      with q Cons.prems show ?thesis by (simp add: Let_def)
    next
      case c: None
      show ?thesis
      proof (cases "m_post a")
        case (Some e)
        with q c Cons.prems show ?thesis
          by (auto simp: Let_def proto_step_def any_state_simps)
      next
        case p: None
        show ?thesis
        proof (cases "m_show a")
          case (Some e)
          with q c p Cons.prems show ?thesis
            by (auto simp: Let_def proto_step_def any_state_simps)
        next
          case d: None
          show ?thesis
          proof (cases "m_wait a")
            case (Inl e)
            with q c p d Cons.prems show ?thesis
              by (auto simp: Let_def proto_step_def any_state_simps)
          next
            case (Inr st)
            with q c p d Cons.prems obtain es' n'
              where rec: "matclient_loop its (if m_sigint a then matclient_sigHandler SIGINT q else q)
                            = Some (ex, es', n')"
                and es: "es = [SrcRead (), SrcPost (), SrcWait () st] @ es'"
              by (auto simp: Let_def)
            from Cons.IH [OF rec] obtain h
              where "check ([()], False) (map any_state es') = Some (h, False)" "ex = None \<longrightarrow> h = [()]"
              by blast
            then show ?thesis
              by (simp add: es proto_step_def any_state_simps)
          qed
        qed
      qed
    qed
  qed
qed

subsection \<open>The claims about the frame buffer\<close>

text \<open>
  Claim C1, as the code has it.  When a sample arrives from the upstream source and the
  ring is full, the ring keeps what it holds, its oldest element included: the sample that
  arrives is the one that is lost.  No counter is kept; the overrun is reported by one
  line on \<open>std::cerr\<close>, so that the number of these lines grows by one.  Nothing is
  thrown, and \<open>push\<close> goes on as after a successful push: it posts to the source,
  notifies the condition variable and returns \<open>false\<close>.
\<close>

theorem push_overrun_reported:
  assumes "BUFFSIZE \<le> length (buffer s)"
  shows "fst (push BUFFSIZE (Some x) s) = False
    \<and> buffer (snd (push BUFFSIZE (Some x) s)) = buffer s
    \<and> trace (snd (push BUFFSIZE (Some x) s))
        = trace s @ [SrcWait () OK, SrcRead (), RingPush x False,
                     Print (cerr (plain ''Buffer overrun.\<newline>'')), SrcPost (), CvNotify]
    \<and> overruns (trace (snd (push BUFFSIZE (Some x) s))) = Suc (overruns (trace s))
    \<and> shared_frame (snd (push BUFFSIZE (Some x) s)) = shared_frame s
    \<and> sink_running (snd (push BUFFSIZE (Some x) s)) = sink_running s"
  using assms by (simp add: push_overrun overruns_def)

theorem push_overrun_reported_witness:
  "2 \<le> length (buffer \<lparr>buffer = [1, 2], shared_frame = None :: nat option, sink_running = True,
                        pop_at = Waiting, trace = []\<rparr>)
   \<and> fst (push 2 (Some 3) \<lparr>buffer = [1, 2], shared_frame = None :: nat option, sink_running = True,
                        pop_at = Waiting, trace = []\<rparr>) = False
   \<and> buffer (snd (push 2 (Some 3) \<lparr>buffer = [1, 2], shared_frame = None :: nat option,
                        sink_running = True, pop_at = Waiting, trace = []\<rparr>)) = [1, 2]
   \<and> trace (snd (push 2 (Some 3) \<lparr>buffer = [1, 2], shared_frame = None :: nat option,
                        sink_running = True, pop_at = Waiting, trace = []\<rparr>))
       = [SrcWait () OK, SrcRead (), RingPush 3 False,
          Print (cerr (plain ''Buffer overrun.\<newline>'')), SrcPost (), CvNotify]"
  using push_overrun_reported [where BUFFSIZE = 2 and x = 3 and s =
      "\<lparr>buffer = [1, 2], shared_frame = None :: nat option, sink_running = True,
        pop_at = Waiting, trace = []\<rparr>"]
  by auto

text \<open>
  Against claim C1 as stated: a ring of capacity 2 that two pushes have filled with 1 and
  2 still holds 1 and 2 after the push of 3; dropping the oldest value would leave 2 and 3.
\<close>

theorem push_keeps_oldest_counterexample:
  "buffer (exec 2 [Push (Some 1), Push (Some 2)] (init :: nat FrameBuffer)) = [1, 2]
   \<and> buffer (snd (push 2 (Some 3) (exec 2 [Push (Some 1), Push (Some 2)] (init :: nat FrameBuffer))))
       = [1, 2]
   \<and> buffer (snd (push 2 (Some 3) (exec 2 [Push (Some 1), Push (Some 2)] (init :: nat FrameBuffer))))
       \<noteq> tl (buffer (exec 2 [Push (Some 1), Push (Some 2)] (init :: nat FrameBuffer))) @ [3]"
  by (simp add: step_def push_def spsc_push_def emit_def notify_one_def init_def)

text \<open>
  Claim C2, as the code has it.  In every run of the buffer from its start, whatever the
  interleaving of calls of \<open>push\<close> and moves of \<open>pop\<close>: every sample that the
  upstream source delivers is handed to the ring, in order; the frames copied downstream,
  followed by the samples still in the ring, are the samples that the ring accepted, in
  the order of their arrival; every sample the ring refused is reported once; and the
  number of samples delivered is the number copied downstream plus the number dropped
  plus the number still in the ring.
\<close>

theorem frame_buffer_accounting:
  "map fst (offers (trace (exec BUFFSIZE ls init))) = upstream ls
   \<and> published (trace (exec BUFFSIZE ls init)) @ buffer (exec BUFFSIZE ls init)
       = map fst (filter snd (offers (trace (exec BUFFSIZE ls init))))
   \<and> overruns (trace (exec BUFFSIZE ls init))
       = length (filter (\<lambda>p. \<not> snd p) (offers (trace (exec BUFFSIZE ls init))))
   \<and> length (upstream ls)
       = length (published (trace (exec BUFFSIZE ls init)))
         + overruns (trace (exec BUFFSIZE ls init))
         + length (buffer (exec BUFFSIZE ls init))"
proof -
  let ?s = "exec BUFFSIZE ls init"
  have inv: "fifo_inv ?s"
    by (rule exec_fifo_inv [OF fifo_inv_init])
  have up: "map fst (offers (trace ?s)) = upstream ls"
    using exec_offers [of BUFFSIZE ls init] by (simp add: init_def offers_def)
  have "length (upstream ls) = length (offers (trace ?s))"
    using up [symmetric] by simp
  with accounting [OF inv] inv up show ?thesis
    by (simp add: fifo_inv_def)
qed

text \<open>
  Against claim C2 as stated: the \<open>pop\<close> thread waits, a first sample arrives and is
  published, a second sample arrives.  Two samples were produced, one was copied
  downstream, none was dropped; the second is in the ring.
\<close>

theorem frame_buffer_in_flight_counterexample:
  "length (upstream [PopEnter, Push (Some (1::nat)), PopWake, PopOne, Push (Some 2)]) = 2
   \<and> published (trace (exec 4 [PopEnter, Push (Some (1::nat)), PopWake, PopOne, Push (Some 2)] init)) = [1]
   \<and> overruns (trace (exec 4 [PopEnter, Push (Some (1::nat)), PopWake, PopOne, Push (Some 2)] init)) = 0
   \<and> map fst (filter snd (offers (trace (exec 4 [PopEnter, Push (Some (1::nat)), PopWake, PopOne, Push (Some 2)] init))))
       = [1, 2]
   \<and> length (upstream [PopEnter, Push (Some (1::nat)), PopWake, PopOne, Push (Some 2)])
       \<noteq> length (published (trace (exec 4 [PopEnter, Push (Some (1::nat)), PopWake, PopOne, Push (Some 2)] init)))
         + overruns (trace (exec 4 [PopEnter, Push (Some (1::nat)), PopWake, PopOne, Push (Some 2)] init))
   \<and> published (trace (exec 4 [PopEnter, Push (Some (1::nat)), PopWake, PopOne, Push (Some 2)] init))
       \<noteq> map fst (filter snd (offers (trace (exec 4 [PopEnter, Push (Some (1::nat)), PopWake, PopOne, Push (Some 2)] init))))"
  by (simp add: step_def pop_def push_def spsc_push_def emit_def notify_one_def init_def publish_def
                read_available_def upstream_def sample_of_def published_def written_of_def
                overruns_def offers_def offer_of_def)

text \<open>
  Claim C3, as the code has it.  If the upstream source reports \<open>END\<close>, \<open>push\<close>
  returns \<open>true\<close> to its caller and does nothing else: it writes no member, puts nothing
  in the ring, does not post and does not notify.  The \<open>pop\<close> thread, once it is at its
  inner loop, publishes every sample in the ring, oldest first, until the ring is empty,
  and goes back to the test of \<open>sink_running_\<close>; the calls it makes on the sink are
  \<open>wait\<close>, copy and \<open>post\<close> for each sample and nothing more.
\<close>

theorem push_end_then_drain:
  "push BUFFSIZE None s = (True, s\<lparr>trace := trace s @ [SrcWait () END]\<rparr>)
   \<and> (pop_at s = Draining \<longrightarrow>
        exec BUFFSIZE (replicate (length (buffer s)) PopOne @ [PopOne]) s
          = s\<lparr>buffer := [],
              shared_frame := (if buffer s = [] then shared_frame s else Some (last (buffer s))),
              pop_at := Head,
              trace := trace s @ sink_events (buffer s)\<rparr>)"
  by (simp add: push_None drain_exit)

theorem push_end_then_drain_witness:
  "push 4 None
       \<lparr>buffer = [1, 2], shared_frame = None :: nat option, sink_running = True, pop_at = Draining, trace = []\<rparr>
     = (True, \<lparr>buffer = [1, 2], shared_frame = None, sink_running = True, pop_at = Draining,
               trace = [SrcWait () END]\<rparr>)
   \<and> pop_at \<lparr>buffer = [1, 2], shared_frame = None :: nat option, sink_running = True, pop_at = Draining,
        trace = [SrcWait () END]\<rparr> = Draining
   \<and> exec 4 [PopOne, PopOne, PopOne]
       \<lparr>buffer = [1, 2], shared_frame = None :: nat option, sink_running = True, pop_at = Draining,
        trace = [SrcWait () END]\<rparr>
     = \<lparr>buffer = [], shared_frame = Some 2, sink_running = True, pop_at = Head,
        trace = [SrcWait () END, SinkWait, SinkWrite 1, SinkPost, SinkWait, SinkWrite 2, SinkPost]\<rparr>"
  using
    push_end_then_drain [where BUFFSIZE = 4 and s =
       "\<lparr>buffer = [1, 2], shared_frame = None :: nat option, sink_running = True, pop_at = Draining, trace = []\<rparr>"]
    push_end_then_drain [where BUFFSIZE = 4 and s =
       "\<lparr>buffer = [1, 2], shared_frame = None :: nat option, sink_running = True, pop_at = Draining,
         trace = [SrcWait () END]\<rparr>"]
  by (auto simp: sink_events_def)

text \<open>
  Against claim C3 as stated.  The \<open>pop\<close> thread waits, sample 1 arrives and is
  published, and the thread is back at the test of its outer loop when sample 2 arrives:
  nobody is waiting, and the notification is lost.  The thread blocks, and the source
  reports \<open>END\<close>: \<open>push\<close> returns \<open>true\<close> and notifies nobody.  From then on
  \<open>wait_for\<close> times out, and a round of time-out and loop test changes nothing but the
  list of calls: sample 2 stays in the ring and is never copied downstream.
\<close>

theorem pop_leaves_sample_counterexample:
  "fst (push 4 None (exec 4 [PopEnter, Push (Some 1), PopWake, PopOne, PopOne, Push (Some 2), PopEnter]
                        (init :: nat FrameBuffer))) = True
   \<and> buffer (exec 4 [PopEnter, Push (Some 1), PopWake, PopOne, PopOne, Push (Some 2), PopEnter, Push None]
                (init :: nat FrameBuffer)) = [2]
   \<and> pop_at (exec 4 [PopEnter, Push (Some 1), PopWake, PopOne, PopOne, Push (Some 2), PopEnter, Push None]
                (init :: nat FrameBuffer)) = Waiting
   \<and> exec 4 [PopTimeout, PopEnter]
        (exec 4 [PopEnter, Push (Some 1), PopWake, PopOne, PopOne, Push (Some 2), PopEnter, Push None]
                (init :: nat FrameBuffer))
       = (exec 4 [PopEnter, Push (Some 1), PopWake, PopOne, PopOne, Push (Some 2), PopEnter, Push None]
                (init :: nat FrameBuffer))
           \<lparr>trace := trace (exec 4 [PopEnter, Push (Some 1), PopWake, PopOne, PopOne, Push (Some 2),
                                    PopEnter, Push None] (init :: nat FrameBuffer))
                       @ [CvWaitFor 10 timeout]\<rparr>
   \<and> published (trace (exec 4 [PopEnter, Push (Some 1), PopWake, PopOne, PopOne, Push (Some 2), PopEnter,
                                Push None, PopTimeout, PopEnter, PopTimeout, PopEnter]
                          (init :: nat FrameBuffer))) = [1]
   \<and> buffer (exec 4 [PopEnter, Push (Some 1), PopWake, PopOne, PopOne, Push (Some 2), PopEnter,
                      Push None, PopTimeout, PopEnter, PopTimeout, PopEnter]
                (init :: nat FrameBuffer)) = [2]"
  by (simp add: step_def pop_def push_def spsc_push_def emit_def notify_one_def init_def publish_def
                read_available_def published_def written_of_def)




subsection \<open>The claim about the critical sections\<close>

text \<open>
  Claim C5, as the code has it.  In every call of \<open>Decorator::process\<close> and in every
  run of the frame buffer (calls of \<open>FrameBuffer::push\<close> and moves of \<open>pop\<close>), a
  shared payload is read only between a \<open>wait\<close> on its source that returned a state
  other than \<open>END\<close> and the \<open>post\<close> that follows, each such \<open>wait\<close> is followed
  by exactly one \<open>post\<close>, and the shared frame of the sink is written only between the
  \<open>wait\<close> and the \<open>post\<close> of the sink: the checker ends where it started, with no
  source and no sink inside a critical section.  The matclient program does not look at
  what \<open>wait\<close> returns: whatever its calls return or throw, every read lies between
  a \<open>wait\<close> and the \<open>post\<close> that follows, and when the program returns 0 its
  source is inside the critical section: the \<open>wait\<close> that ends the last run of the
  loop body is not followed by a \<open>post\<close>.
\<close>

theorem critical_sections:
  "check ([], False) (snd (process decorate fw pws)) = Some ([], False)
   \<and> check ([], False) (trace (exec BUFFSIZE ls init)) = Some ([], False)
   \<and> (matclient_main first_wait header its q = Some (r, es :: (unit, 'a) event list)
        \<longrightarrow> (\<exists>h. check ([], False) (map any_state es) = Some (h, False))
          \<and> (fst r = returned 0 \<longrightarrow> check ([], False) (map any_state es) = Some ([()], False)))"
proof -
  have 1: "check ([], False) (snd (process decorate fw pws)) = Some ([], False)"
    by (rule check_process)
  have 2: "check ([], False) (trace (exec BUFFSIZE ls init)) = Some ([], False)"
    using exec_trace [of init BUFFSIZE ls] by (simp add: init_def waits_ok_def)
  have 3: "matclient_main first_wait header its q = Some (r, es)
        \<longrightarrow> (\<exists>h. check ([], False) (map any_state es) = Some (h, False))
          \<and> (fst r = returned 0 \<longrightarrow> check ([], False) (map any_state es) = Some ([()], False))"
  proof
    assume a: "matclient_main first_wait header its q = Some (r, es)"
    show "(\<exists>h. check ([], False) (map any_state es) = Some (h, False))
          \<and> (fst r = returned 0 \<longrightarrow> check ([], False) (map any_state es) = Some ([()], False))"
    proof (cases first_wait)
      case (Inl e)
      with a show ?thesis
        by (auto simp: matclient_main_def caught_def split: if_splits)
    next
      case w: (Inr st)
      show ?thesis
      proof (cases header)
        case (Some e)
        with a w show ?thesis
          by (auto simp: matclient_main_def caught_def proto_step_def any_state_simps split: if_splits)
      next
        case None
        with a w obtain ex and es' :: "(unit, 'a) event list" and n
          where l: "matclient_loop its q = Some (ex, es', n)"
            and es: "es = SrcWait () st # es'"
            and r: "ex = None \<longrightarrow> r = (returned 0, [])" "\<forall>e. ex = Some e \<longrightarrow> r = caught e"
          by (auto simp: matclient_main_def split: option.splits)
        from matclient_order [OF l] obtain h
          where h: "check ([()], False) (map any_state es') = Some (h, False)" "ex = None \<longrightarrow> h = [()]"
          by blast
        have c: "check ([], False) (map any_state es) = Some (h, False)"
          using h(1) by (simp add: es proto_step_def any_state_simps)
        have "fst r = returned 0 \<longrightarrow> ex = None"
          using r(2) by (cases ex) (auto simp: caught_def)
        with c h(2) show ?thesis by auto
      qed
    qed
  qed
  from 1 2 3 show ?thesis by blast
qed

theorem critical_sections_witness:
  "matclient_main (Inr OK) None
        [\<lparr>m_sigint = False, m_clone = None, m_post = None, m_show = None, m_wait = Inr END\<rparr>,
         \<lparr>m_sigint = True, m_clone = None, m_post = None, m_show = None, m_wait = Inr OK\<rparr>] 0
       = Some ((returned 0, []),
               [SrcWait () OK, SrcRead (), SrcPost (), SrcWait () END,
                SrcRead (), SrcPost (), SrcWait () OK :: (unit, nat) event])
   \<and> fst (returned 0, [] :: out list) = returned 0
   \<and> check ([], False)
        (map any_state
          [SrcWait () OK, SrcRead (), SrcPost (), SrcWait () END,
           SrcRead (), SrcPost (), SrcWait () OK :: (unit, nat) event])
       = Some ([()], False)"
proof -
  let ?its = "[\<lparr>m_sigint = False, m_clone = None, m_post = None, m_show = None, m_wait = Inr END\<rparr>,
               \<lparr>m_sigint = True, m_clone = None, m_post = None, m_show = None, m_wait = Inr OK\<rparr>]"
  let ?es = "[SrcWait () OK, SrcRead (), SrcPost (), SrcWait () END,
              SrcRead (), SrcPost (), SrcWait () OK :: (unit, nat) event]"
  have m: "matclient_main (Inr OK) None ?its 0 = Some ((returned 0, []), ?es)"
    by (simp add: matclient_main_def matclient_sigHandler_def)
  have f: "fst (returned 0, [] :: out list) = returned 0" by simp
  from m f critical_sections [where first_wait = "Inr OK" and header = None and its = ?its and q = 0
         and r = "(returned 0, [])" and es = ?es]
  have k: "check ([], False) (map any_state ?es) = Some ([()], False)" by blast
  from m f k show ?thesis by (intro conjI)
qed

text \<open>
  Against claim C5 as stated, twice.  The matclient program, with \<open>SIGINT\<close> delivered
  during the first run of the loop body and every call returning normally, makes two
  waits and one post before it returns 0.  And when the \<open>wait\<close> before the loop
  returns \<open>END\<close>, the program reads and posts all the same: the read is outside any
  \<open>wait\<close> that returned \<open>OK\<close>, and the checker fails.
\<close>

theorem matclient_unposted_wait_counterexample:
  "matclient_main (Inr OK) None
        [\<lparr>m_sigint = True, m_clone = None, m_post = None, m_show = None, m_wait = Inr OK\<rparr>] 0
       = Some ((returned 0, []), [SrcWait () OK, SrcRead (), SrcPost (), SrcWait () OK :: (unit, nat) event])
   \<and> length (filter (\<lambda>e. e = SrcWait () OK)
               [SrcWait () OK, SrcRead (), SrcPost (), SrcWait () OK :: (unit, nat) event]) = 2
   \<and> length (filter (\<lambda>e. e = SrcPost ())
               [SrcWait () OK, SrcRead (), SrcPost (), SrcWait () OK :: (unit, nat) event]) = 1
   \<and> check ([], False) [SrcWait () OK, SrcRead (), SrcPost (), SrcWait () OK :: (unit, nat) event]
       \<noteq> Some ([], False)
   \<and> matclient_main (Inr END) None
        [\<lparr>m_sigint = True, m_clone = None, m_post = None, m_show = None, m_wait = Inr OK\<rparr>] 0
       = Some ((returned 0, []), [SrcWait () END, SrcRead (), SrcPost (), SrcWait () OK :: (unit, nat) event])
   \<and> check ([], False) [SrcWait () END, SrcRead (), SrcPost (), SrcWait () OK :: (unit, nat) event]
       = None"
  by (simp add: matclient_main_def matclient_sigHandler_def proto_step_def)

subsection \<open>The claims about the driver loop\<close>

text \<open>
  Claim C6.  In the driver loop \<open>while (!quit && !source_eof) { source_eof = process(); }\<close>
  of the recorder and of the position socket, the first call that returns the
  end-of-stream signal ends the loop: the loop returns and has made no call after that
  one (and exactly the calls up to it when the flags were clear at the start and no
  \<open>SIGINT\<close> came before).  End of stream is not an error: \<open>main\<close> then prints its
  exit message and returns 0.
\<close>

theorem end_of_stream_ends_driver:
  assumes "\<forall>c \<in> set pre. returns c = Inr False" and "returns c = Inr True"
  shows "(\<exists>g' n. run (pre @ c # rest) g = Some (Inr g', n) \<and> n \<le> Suc (length pre))
    \<and> (quit g = 0 \<and> source_eof g = 0 \<and> (\<forall>c \<in> set pre. \<not> sigint c)
         \<longrightarrow> (\<exists>g'. run (pre @ c # rest) g = Some (Inr g', Suc (length pre)) \<and> source_eof g' = 1))
    \<and> recorder_main name (pre @ c # rest) g = Some ([cout (whoMessage name ''Exiting.\<newline>'')], 0)
    \<and> posisock_main name config_file (pre @ c # rest) g
        = Some ([cout (whoMessage name ''Exiting.\<newline>'')], 0)"
proof -
  have pre: "\<forall>c \<in> set pre. \<exists>b. returns c = Inr b" using assms(1) by auto
  obtain g' n where r: "run (pre @ c # rest) g = Some (Inr g', n)" "n \<le> Suc (length pre)"
    using run_stops [OF pre assms(2), of rest g] by auto
  have e: "quit g = 0 \<and> source_eof g = 0 \<and> (\<forall>c \<in> set pre. \<not> sigint c)
         \<longrightarrow> (\<exists>g'. run (pre @ c # rest) g = Some (Inr g', Suc (length pre)) \<and> source_eof g' = 1)"
  proof
    assume a: "quit g = 0 \<and> source_eof g = 0 \<and> (\<forall>c \<in> set pre. \<not> sigint c)"
    then have "\<forall>c \<in> set pre. returns c = Inr False \<and> \<not> sigint c" using assms(1) by simp
    from run_exact [OF _ _ this assms(2), of g rest] a
    show "\<exists>g'. run (pre @ c # rest) g = Some (Inr g', Suc (length pre)) \<and> source_eof g' = 1"
      by simp
  qed
  from r e show ?thesis
    by (auto simp: recorder_main_def posisock_main_def)
qed

theorem end_of_stream_ends_driver_witness:
  "returns \<lparr>sigint = False, returns = Inr False\<rparr> = Inr False
   \<and> returns \<lparr>sigint = False, returns = Inr True\<rparr> = Inr True
   \<and> recorder_main ''recorder''
        ([\<lparr>sigint = False, returns = Inr False\<rparr>, \<lparr>sigint = False, returns = Inr False\<rparr>]
          @ \<lparr>sigint = False, returns = Inr True\<rparr> # [\<lparr>sigint = False, returns = Inr False\<rparr>])
        \<lparr>quit = 0, source_eof = 0\<rparr>
       = Some ([cout (whoMessage ''recorder'' ''Exiting.\<newline>'')], 0)
   \<and> (\<exists>g'. run ([\<lparr>sigint = False, returns = Inr False\<rparr>, \<lparr>sigint = False, returns = Inr False\<rparr>]
          @ \<lparr>sigint = False, returns = Inr True\<rparr> # [\<lparr>sigint = False, returns = Inr False\<rparr>])
        \<lparr>quit = 0, source_eof = 0\<rparr> = Some (Inr g', 3) \<and> source_eof g' = 1)"
proof -
  let ?pre = "[\<lparr>sigint = False, returns = Inr False\<rparr>, \<lparr>sigint = False, returns = Inr False\<rparr>]"
  let ?c = "\<lparr>sigint = False, returns = Inr True\<rparr>"
  have h1: "\<forall>c \<in> set ?pre. returns c = Inr False" by simp
  have h2: "returns ?c = Inr True" by simp
  have h3: "quit \<lparr>quit = 0, source_eof = 0\<rparr> = 0 \<and> source_eof \<lparr>quit = 0, source_eof = 0\<rparr> = 0
             \<and> (\<forall>c \<in> set ?pre. \<not> sigint c)" by simp
  have l: "Suc (length ?pre) = 3" by simp
  from end_of_stream_ends_driver [OF h1 h2, of "[\<lparr>sigint = False, returns = Inr False\<rparr>]"
         "\<lparr>quit = 0, source_eof = 0\<rparr>" "''recorder''" "[]"] h1 h2 h3
  have k: "recorder_main ''recorder'' (?pre @ ?c # [\<lparr>sigint = False, returns = Inr False\<rparr>])
             \<lparr>quit = 0, source_eof = 0\<rparr>
           = Some ([cout (whoMessage ''recorder'' ''Exiting.\<newline>'')], 0)"
    and e: "\<exists>g'. run (?pre @ ?c # [\<lparr>sigint = False, returns = Inr False\<rparr>])
             \<lparr>quit = 0, source_eof = 0\<rparr> = Some (Inr g', 3) \<and> source_eof g' = 1"
    unfolding l by blast+
  have h0: "returns \<lparr>sigint = False, returns = Inr False\<rparr> = Inr False" by simp
  from h0 h2 k e show ?thesis by (intro conjI)
qed

text \<open>
  Claim C7.  The handler that each endpoint installs for \<open>SIGINT\<close> sets the global
  \<open>quit\<close> to 1.  A signal delivered before the loop test leaves no run of the loop body
  at all; a signal delivered during a run of the body, when that run and the runs before
  it complete, leaves no further run: the loop of the recorder and of the position socket
  returns, their \<open>main\<close> prints its exit message and returns 0, and the loop of the
  matclient program ends and its \<open>main\<close> returns 0.
\<close>

theorem sigint_ends_driver:
  assumes "\<forall>c \<in> set pre. \<exists>b. returns c = Inr b" and "returns c = Inr b" and "sigint c"
    and "\<forall>i \<in> set mpre. completes i" and "completes mc" and "m_sigint mc"
  shows "quit (sigHandler s g0) = 1
    \<and> matclient_sigHandler s q0 = 1
    \<and> run cs (sigHandler s g0) = Some (Inr (sigHandler s g0), 0)
    \<and> (\<exists>g' n. run (pre @ c # rest) g = Some (Inr g', n) \<and> n \<le> Suc (length pre))
    \<and> recorder_main name (pre @ c # rest) g = Some ([cout (whoMessage name ''Exiting.\<newline>'')], 0)
    \<and> posisock_main name config_file (pre @ c # rest) g
        = Some ([cout (whoMessage name ''Exiting.\<newline>'')], 0)
    \<and> (\<exists>es n. (matclient_loop (mpre @ mc # mrest) q :: (error option \<times> (unit, 'a) event list \<times> nat) option)
                  = Some (None, es, n) \<and> n \<le> Suc (length mpre))
    \<and> (\<exists>es. (matclient_main (Inr st) None (mpre @ mc # mrest) q
                  :: ((status \<times> out list) \<times> (unit, 'a) event list) option)
                = Some ((returned 0, []), es))"
proof -
  have 1: "quit (sigHandler s g0) = 1" by (simp add: sigHandler_def)
  have 2: "run cs (sigHandler s g0) = Some (Inr (sigHandler s g0), 0)"
    by (cases cs) (simp_all add: sigHandler_def)
  obtain g' n where r: "run (pre @ c # rest) g = Some (Inr g', n)" "n \<le> Suc (length pre)"
    using run_stops [OF assms(1) assms(2), of rest g] assms(3) by auto
  obtain es :: "(unit, 'a) event list" and m
    where l: "matclient_loop (mpre @ mc # mrest) q = Some (None, es, m)" "m \<le> Suc (length mpre)"
    using matclient_stops [OF assms(4) assms(5) assms(6), of mrest q] by blast
  have 3: "matclient_sigHandler s q0 = 1" by (simp add: matclient_sigHandler_def)
  have 4: "\<exists>g' n. run (pre @ c # rest) g = Some (Inr g', n) \<and> n \<le> Suc (length pre)"
    using r by blast
  have 5: "recorder_main name (pre @ c # rest) g = Some ([cout (whoMessage name ''Exiting.\<newline>'')], 0)"
    using r by (simp add: recorder_main_def)
  have 6: "posisock_main name config_file (pre @ c # rest) g
        = Some ([cout (whoMessage name ''Exiting.\<newline>'')], 0)"
    using r by (simp add: posisock_main_def)
  have 7: "\<exists>es n. (matclient_loop (mpre @ mc # mrest) q :: (error option \<times> (unit, 'a) event list \<times> nat) option)
                  = Some (None, es, n) \<and> n \<le> Suc (length mpre)"
    using l by blast
  have 8: "\<exists>es. (matclient_main (Inr st) None (mpre @ mc # mrest) q
                  :: ((status \<times> out list) \<times> (unit, 'a) event list) option)
                = Some ((returned 0, []), es)"
    using l by (simp add: matclient_main_def)
  from 1 3 2 4 5 6 7 8 show ?thesis by (intro conjI)
qed

theorem sigint_ends_driver_witness:
  "(\<exists>b. returns \<lparr>sigint = False, returns = Inr False\<rparr> = Inr b)
   \<and> returns \<lparr>sigint = True, returns = Inr False\<rparr> = Inr False
   \<and> sigint \<lparr>sigint = True, returns = Inr False\<rparr>
   \<and> completes \<lparr>m_sigint = False, m_clone = None, m_post = None, m_show = None, m_wait = Inr OK\<rparr>
   \<and> completes \<lparr>m_sigint = True, m_clone = None, m_post = None, m_show = None, m_wait = Inr OK\<rparr>
   \<and> m_sigint \<lparr>m_sigint = True, m_clone = None, m_post = None, m_show = None, m_wait = Inr OK\<rparr>
   \<and> quit (sigHandler SIGINT \<lparr>quit = 0, source_eof = 0\<rparr>) = 1
   \<and> (\<exists>g' n. run ([\<lparr>sigint = False, returns = Inr False\<rparr>] @ \<lparr>sigint = True, returns = Inr False\<rparr>
                      # [\<lparr>sigint = False, returns = Inr False\<rparr>]) \<lparr>quit = 0, source_eof = 0\<rparr>
                = Some (Inr g', n) \<and> n \<le> Suc (length [\<lparr>sigint = False, returns = Inr False\<rparr>]))
   \<and> posisock_main ''posisock'' []
        ([\<lparr>sigint = False, returns = Inr False\<rparr>] @ \<lparr>sigint = True, returns = Inr False\<rparr>
           # [\<lparr>sigint = False, returns = Inr False\<rparr>]) \<lparr>quit = 0, source_eof = 0\<rparr>
       = Some ([cout (whoMessage ''posisock'' ''Exiting.\<newline>'')], 0)
   \<and> (\<exists>es. (matclient_main (Inr OK) None
                ([\<lparr>m_sigint = False, m_clone = None, m_post = None, m_show = None, m_wait = Inr OK\<rparr>]
                  @ \<lparr>m_sigint = True, m_clone = None, m_post = None, m_show = None, m_wait = Inr OK\<rparr>
                  # [\<lparr>m_sigint = False, m_clone = None, m_post = None, m_show = None, m_wait = Inr OK\<rparr>]) 0
                :: ((status \<times> out list) \<times> (unit, nat) event list) option)
              = Some ((returned 0, []), es))"
proof -
  let ?pre = "[\<lparr>sigint = False, returns = Inr False\<rparr>]"
  let ?c = "\<lparr>sigint = True, returns = Inr False\<rparr>"
  let ?mpre = "[\<lparr>m_sigint = False, m_clone = None, m_post = None, m_show = None, m_wait = Inr OK\<rparr>]"
  let ?mc = "\<lparr>m_sigint = True, m_clone = None, m_post = None, m_show = None, m_wait = Inr OK\<rparr>"
  have h1: "\<forall>c \<in> set ?pre. \<exists>b. returns c = Inr b" by auto
  have h2: "returns ?c = Inr False" by simp
  have h3: "sigint ?c" by simp
  have h4: "\<forall>i \<in> set ?mpre. completes i" by (simp add: completes_def)
  have h5: "completes ?mc" by (simp add: completes_def)
  have h6: "m_sigint ?mc" by simp
  from sigint_ends_driver [OF h1 h2 h3 h4 h5 h6, where s = SIGINT and ?g0.0 = "\<lparr>quit = 0, source_eof = 0\<rparr>"
      and g = "\<lparr>quit = 0, source_eof = 0\<rparr>" and rest = "[\<lparr>sigint = False, returns = Inr False\<rparr>]"
      and name = "''posisock''" and config_file = "[]" and q = 0 and st = OK
      and mrest = "[\<lparr>m_sigint = False, m_clone = None, m_post = None, m_show = None, m_wait = Inr OK\<rparr>]"
      and ?'a = nat]
    h1 h2 h3 h4 h5 h6
  have k: "quit (sigHandler SIGINT \<lparr>quit = 0, source_eof = 0\<rparr>) = 1"
    and r: "\<exists>g' n. run (?pre @ ?c # [\<lparr>sigint = False, returns = Inr False\<rparr>])
                \<lparr>quit = 0, source_eof = 0\<rparr>
              = Some (Inr g', n) \<and> n \<le> Suc (length ?pre)"
    and p: "posisock_main ''posisock'' [] (?pre @ ?c # [\<lparr>sigint = False, returns = Inr False\<rparr>])
              \<lparr>quit = 0, source_eof = 0\<rparr>
            = Some ([cout (whoMessage ''posisock'' ''Exiting.\<newline>'')], 0)"
    and m: "\<exists>es. (matclient_main (Inr OK) None
                (?mpre @ ?mc
                  # [\<lparr>m_sigint = False, m_clone = None, m_post = None, m_show = None, m_wait = Inr OK\<rparr>]) 0
                :: ((status \<times> out list) \<times> (unit, nat) event list) option)
              = Some ((returned 0, []), es)"
    by blast+
  have h0: "\<exists>b. returns \<lparr>sigint = False, returns = Inr False\<rparr> = Inr b" by auto
  have h7: "completes \<lparr>m_sigint = False, m_clone = None, m_post = None, m_show = None, m_wait = Inr OK\<rparr>"
    by (simp add: completes_def)
  from h0 h2 h3 h7 h5 h6 k r p m show ?thesis by (intro conjI)
qed

end
